theory Spec2Isabelle
  imports Main "HOL-Library.Word" "HOL-Library.Multiset"
begin

section \<open>Errors, outcomes and library functions\<close>

text \<open>
  A Go \<^verbatim>\<open>error\<close> value. \<open>ErrNotExist\<close> stands for every error that
  \<^verbatim>\<open>os.IsNotExist\<close> accepts, \<open>ErrBadPattern\<close> is \<^verbatim>\<open>filepath.ErrBadPattern\<close>,
  \<open>ErrOther\<close> is any other error of a collaborator, and \<open>Errorf\<close> is an error
  built by \<^verbatim>\<open>fmt.Errorf\<close>, holding the formatted message. A \<^verbatim>\<open>nil\<close> error
  is \<open>None\<close> of \<open>error option\<close>.
\<close>

datatype error = ErrNotExist | ErrBadPattern | ErrOther string | Errorf string

fun Error :: "error \<Rightarrow> string" where
  "Error ErrNotExist = ''no such file or directory''"
| "Error ErrBadPattern = ''syntax error in pattern''"
| "Error (ErrOther m) = m"
| "Error (Errorf m) = m"

text \<open>The verb \<^verbatim>\<open>%v\<close> applied to an error value, which may be \<^verbatim>\<open>nil\<close>.\<close>

definition fmt_v :: "error option \<Rightarrow> string" where
  "fmt_v e = (case e of None \<Rightarrow> ''<nil>'' | Some x \<Rightarrow> Error x)"

definition os_IsNotExist :: "error \<Rightarrow> bool" where
  "os_IsNotExist e = (e = ErrNotExist)"

text \<open>A call either returns or panics; nothing in the sources recovers from a panic.\<close>

datatype 'a outcome = Return 'a | Panic

text \<open>
  The method call \<^verbatim>\<open>err.Error()\<close> on an interface value: on the \<^verbatim>\<open>nil\<close>
  interface it is a nil dereference, a run-time panic.
\<close>

definition err_Error :: "error option \<Rightarrow> string outcome" where
  "err_Error e = (case e of None \<Rightarrow> Panic | Some x \<Rightarrow> Return (Error x))"

text \<open>
  Functions of the Go standard library that the sources call and that are too large to
  restate here are parameters of the model: \<^verbatim>\<open>filepath.Match\<close> (returning
  \<^verbatim>\<open>(matched, err)\<close>), \<^verbatim>\<open>path.Join\<close>, \<^verbatim>\<open>filepath.Join\<close> and
  \<^verbatim>\<open>filepath.Base\<close>.
\<close>

record stdlib =
  filepath_Match :: "string \<Rightarrow> string \<Rightarrow> bool \<times> error option"
  path_Join :: "string list \<Rightarrow> string"
  filepath_Join :: "string list \<Rightarrow> string"
  filepath_Base :: "string \<Rightarrow> string"

text \<open>
  One instance of the library, for evaluating the model on concrete inputs. Its
  \<open>glob\<close> is \<^verbatim>\<open>filepath.Match\<close> on patterns made of literal characters,
  \<^verbatim>\<open>*\<close> and \<^verbatim>\<open>?\<close>; the pattern \<^verbatim>\<open>[\<close>, an unclosed character class, is
  reported as malformed. Joining is concatenation with a separator and \<open>base_name\<close> drops
  everything up to the last separator, which is what the library does on clean paths
  that do not end in a separator. It is used at such inputs only.
\<close>

fun glob :: "string \<Rightarrow> string \<Rightarrow> bool" where
  "glob [] [] = True"
| "glob [] (c # cs) = False"
| "glob (p # ps) [] = (p = CHR ''*'' \<and> glob ps [])"
| "glob (p # ps) (c # cs) =
     (if p = CHR ''*'' then glob ps (c # cs) \<or> (c \<noteq> CHR ''/'' \<and> glob (p # ps) cs)
      else (p = c \<or> (p = CHR ''?'' \<and> c \<noteq> CHR ''/'')) \<and> glob ps cs)"

definition sample_Match :: "string \<Rightarrow> string \<Rightarrow> bool \<times> error option" where
  "sample_Match pattern name =
     (if pattern = ''['' then (False, Some ErrBadPattern) else (glob pattern name, None))"

fun join_with_slash :: "string list \<Rightarrow> string" where
  "join_with_slash [] = []"
| "join_with_slash [x] = x"
| "join_with_slash (x # y # ys) = x @ ''/'' @ join_with_slash (y # ys)"

fun base_name :: "string \<Rightarrow> string \<Rightarrow> string" where
  "base_name acc [] = acc"
| "base_name acc (c # cs) = (if c = CHR ''/'' then base_name [] cs else base_name (acc @ [c]) cs)"

definition sample_lib :: stdlib where
  "sample_lib = \<lparr> filepath_Match = sample_Match, path_Join = join_with_slash,
                  filepath_Join = join_with_slash, filepath_Base = base_name [] \<rparr>"

section \<open>Table selection\<close>

text \<open>
  The structs \<^verbatim>\<open>Table\<close> and \<^verbatim>\<open>BackupTable\<close> are declared outside the two source
  files; the fields below are the ones the sources read. Field names carry a prefix
  because the three table structs share \<^verbatim>\<open>Database\<close> and \<^verbatim>\<open>Name\<close>.
\<close>

record Table =
  t_Database :: string
  t_Name :: string

record BackupTable =
  bt_Database :: string
  bt_Name :: string
  bt_Increment :: int

text \<open>\<^verbatim>\<open>fmt.Sprintf("%s.%s", db, name)\<close>\<close>

definition sprintf_dot :: "string \<Rightarrow> string \<Rightarrow> string" where
  "sprintf_dot db name = db @ ''.'' @ name"

text \<open>
  \<^verbatim>\<open>parseArgsForFreeze\<close>: the inner loop over the tables for one argument, the outer
  loop over the arguments, and the function. The error \<^verbatim>\<open>filepath.Match\<close> returns
  is discarded by the blank identifier.
\<close>

fun freeze_tables_loop :: "stdlib \<Rightarrow> string \<Rightarrow> Table list \<Rightarrow> Table list \<Rightarrow> Table list" where
  "freeze_tables_loop lib arg [] result = result"
| "freeze_tables_loop lib arg (t # ts) result =
     (let (matched, _) = filepath_Match lib arg (sprintf_dot (t_Database t) (t_Name t))
      in if matched then freeze_tables_loop lib arg ts (result @ [t])
         else freeze_tables_loop lib arg ts result)"

fun freeze_args_loop :: "stdlib \<Rightarrow> Table list \<Rightarrow> string list \<Rightarrow> Table list \<Rightarrow> Table list" where
  "freeze_args_loop lib tables [] result = result"
| "freeze_args_loop lib tables (arg # args) result =
     freeze_args_loop lib tables args (freeze_tables_loop lib arg tables result)"

definition parseArgsForFreeze :: "stdlib \<Rightarrow> Table list \<Rightarrow> string list \<Rightarrow> Table list \<times> error option" where
  "parseArgsForFreeze lib tables args =
     (if length args = 0 then (tables, None)
      else (freeze_args_loop lib tables args [], None))"

text \<open>
  \<^verbatim>\<open>parseArgsForRestore\<close> ranges over a Go map. A map is visited in an order the
  language leaves open, and the order may change from one \<^verbatim>\<open>range\<close> statement to the
  next: \<open>order k\<close> is the sequence of keys in which the \<open>k\<close>-th pass over the catalog
  (one pass per argument, counted from 0) visits it.
\<close>

definition range_values :: "(string \<rightharpoonup> BackupTable) \<Rightarrow> string list \<Rightarrow> BackupTable list" where
  "range_values tables keys = List.map_filter tables keys"

fun increments_loop :: "int list \<Rightarrow> BackupTable \<Rightarrow> BackupTable list \<Rightarrow> BackupTable list" where
  "increments_loop [] t result = result"
| "increments_loop (n # ns) t result =
     (if n = bt_Increment t then result @ [t] else increments_loop ns t result)"

fun restore_tables_loop ::
  "stdlib \<Rightarrow> string \<Rightarrow> int list \<Rightarrow> BackupTable list \<Rightarrow> BackupTable list \<Rightarrow> BackupTable list" where
  "restore_tables_loop lib arg increments [] result = result"
| "restore_tables_loop lib arg increments (t # ts) result =
     (let tableName = sprintf_dot (bt_Database t) (bt_Name t);
          (matched, _) = filepath_Match lib arg tableName
      in if matched then
           (if length increments = 0 then restore_tables_loop lib arg increments ts (result @ [t])
            else restore_tables_loop lib arg increments ts (increments_loop increments t result))
         else restore_tables_loop lib arg increments ts result)"

fun restore_args_loop ::
  "stdlib \<Rightarrow> (nat \<Rightarrow> string list) \<Rightarrow> (string \<rightharpoonup> BackupTable) \<Rightarrow> int list \<Rightarrow> nat \<Rightarrow> string list \<Rightarrow>
   BackupTable list \<Rightarrow> BackupTable list" where
  "restore_args_loop lib order tables increments k [] result = result"
| "restore_args_loop lib order tables increments k (arg # args) result =
     restore_args_loop lib order tables increments (Suc k) args
       (restore_tables_loop lib arg increments (range_values tables (order k)) result)"

definition parseArgsForRestore ::
  "stdlib \<Rightarrow> (nat \<Rightarrow> string list) \<Rightarrow> (string \<rightharpoonup> BackupTable) \<Rightarrow> string list \<Rightarrow> int list \<Rightarrow>
   BackupTable list \<times> error option" where
  "parseArgsForRestore lib order tables args increments =
     (let args = (if length args = 0 then [''*''] else args)
      in (restore_args_loop lib order tables increments 0 args [], None))"

text \<open>
  A list is in catalog order when the catalog positions of its elements never decrease.
\<close>

fun position :: "'a list \<Rightarrow> 'a \<Rightarrow> nat" where
  "position [] x = 0"
| "position (y # ys) x = (if x = y then 0 else Suc (position ys x))"

definition in_catalog_order :: "'a list \<Rightarrow> 'a list \<Rightarrow> bool" where
  "in_catalog_order catalog result = sorted (map (position catalog) result)"

text \<open>Sample catalogs.\<close>

definition table_a :: Table where
  "table_a = \<lparr> t_Database = ''db'', t_Name = ''a'' \<rparr>"

definition table_b :: Table where
  "table_b = \<lparr> t_Database = ''db'', t_Name = ''b'' \<rparr>"

definition backup_a1 :: BackupTable where
  "backup_a1 = \<lparr> bt_Database = ''db'', bt_Name = ''a'', bt_Increment = 1 \<rparr>"

definition backup_b2 :: BackupTable where
  "backup_b2 = \<lparr> bt_Database = ''db'', bt_Name = ''b'', bt_Increment = 2 \<rparr>"

definition backup_catalog :: "string \<rightharpoonup> BackupTable" where
  "backup_catalog = [''1/db/a'' \<mapsto> backup_a1, ''2/db/b'' \<mapsto> backup_b2]"

definition backup_order :: "nat \<Rightarrow> string list" where
  "backup_order k = (if even k then [''1/db/a'', ''2/db/b''] else [''2/db/b'', ''1/db/a''])"

text \<open>What one pass of \<^verbatim>\<open>parseArgsForRestore\<close> keeps of the catalog.\<close>

definition restore_selects :: "stdlib \<Rightarrow> string \<Rightarrow> int list \<Rightarrow> BackupTable \<Rightarrow> bool" where
  "restore_selects lib arg increments t =
     (fst (filepath_Match lib arg (sprintf_dot (bt_Database t) (bt_Name t))) \<and>
      (increments = [] \<or> bt_Increment t \<in> set increments))"

definition freeze_selects :: "stdlib \<Rightarrow> string \<Rightarrow> Table \<Rightarrow> bool" where
  "freeze_selects lib arg t = fst (filepath_Match lib arg (sprintf_dot (t_Database t) (t_Name t)))"

section \<open>The archive engine\<close>

text \<open>
  The key of the table of files already archived, as the source declares it.
\<close>

record devino =
  Dev :: "64 word"
  Ino :: "64 word"

text \<open>
  The fields of \<^verbatim>\<open>tar.Header\<close> the source assigns. An archive is the sequence of
  entries the \<^verbatim>\<open>tar.Writer\<close> has received: each header with the body bytes written
  after it.
\<close>

datatype typeflag = TypeReg | TypeLink | TypeSymlink | TypeChar | TypeBlock | TypeDir | TypeFifo

record Header =
  h_Name :: string
  h_Typeflag :: typeflag
  h_Linkname :: string
  h_Size :: int

type_synonym archive = "(Header \<times> string) list"

text \<open>
  One call of \<^verbatim>\<open>filepath.Walk\<close> to its callback, with what the file system and the
  archive writer answer while the callback handles it: the path and the error
  \<^verbatim>\<open>Walk\<close> passes, whether the file is a directory, the result of
  \<^verbatim>\<open>tar.FileInfoHeader\<close>, the device and inode numbers of the file, the results of
  \<^verbatim>\<open>tw.WriteHeader\<close> and \<^verbatim>\<open>os.Open\<close>, and for \<^verbatim>\<open>io.Copy\<close> the bytes that
  reached the archive together with the error it returns. The source is built for
  systems where \<^verbatim>\<open>fi.Sys()\<close> is a \<^verbatim>\<open>*syscall.Stat_t\<close>, so the type assertion
  that reads the two numbers does not fail; and \<^verbatim>\<open>Walk\<close> passes no
  \<^verbatim>\<open>filepath.SkipDir\<close>, so every error the callback returns ends the walk.
\<close>

record visit =
  v_file :: string
  v_err :: "error option"
  v_IsDir :: bool
  v_FileInfoHeader :: "error + Header"
  v_devino :: devino
  v_WriteHeader :: "error option"
  v_Open :: "error option"
  v_Copy :: "string \<times> error option"

text \<open>
  What is found at a root path: the result of \<^verbatim>\<open>os.Stat\<close> (an error, or whether the
  path is a directory) and the calls \<^verbatim>\<open>filepath.Walk\<close> makes for it, in order, as
  long as the callback returns \<^verbatim>\<open>nil\<close>.
\<close>

record root =
  r_Stat :: "error + bool"
  r_visits :: "visit list"

text \<open>
  \<^verbatim>\<open>strings.Replace(s, old, new, -1)\<close> and \<^verbatim>\<open>strings.TrimPrefix\<close>. The counter of
  \<open>replace_all\<close> is the number of characters of a replaced occurrence still to skip.
\<close>

fun replace_all :: "string \<Rightarrow> string \<Rightarrow> nat \<Rightarrow> string \<Rightarrow> string" where
  "replace_all old new skip [] = []"
| "replace_all old new (Suc skip) (c # cs) = replace_all old new skip cs"
| "replace_all old new 0 (c # cs) =
     (if take (length old) (c # cs) = old then new @ replace_all old new (length old - 1) cs
      else c # replace_all old new 0 cs)"

definition strings_Replace_all :: "string \<Rightarrow> string \<Rightarrow> string \<Rightarrow> string" where
  "strings_Replace_all s old new =
     (if old = [] then new @ concat (map (\<lambda>c. c # new) s) else replace_all old new 0 s)"

definition strings_TrimPrefix :: "string \<Rightarrow> string \<Rightarrow> string" where
  "strings_TrimPrefix s pre = (if take (length pre) s = pre then drop (length pre) s else s)"

definition archive_name :: "stdlib \<Rightarrow> string \<Rightarrow> string \<Rightarrow> string" where
  "archive_name lib dir file =
     strings_TrimPrefix (strings_Replace_all file dir (filepath_Base lib dir)) ''/''"

text \<open>
  The local state of \<^verbatim>\<open>tarDir\<close>: the table \<^verbatim>\<open>seen\<close>, the writer and the two
  counters.
\<close>

record tar_state =
  seen :: "devino \<rightharpoonup> string"
  tw :: archive
  nFiles :: nat
  hLinks :: nat

text \<open>
  The callback \<^verbatim>\<open>tarDir\<close> passes to \<^verbatim>\<open>filepath.Walk\<close>. The result of
  \<^verbatim>\<open>io.Copy\<close> is not read: the source calls it as a statement.
\<close>

definition walkFn :: "stdlib \<Rightarrow> string \<Rightarrow> visit \<Rightarrow> tar_state \<Rightarrow> error option \<times> tar_state" where
  "walkFn lib dir v st =
     (case v_err v of
        Some err \<Rightarrow> (Some err, st)
      | None \<Rightarrow>
          if v_IsDir v then (None, st)
          else (case v_FileInfoHeader v of
            Inl err \<Rightarrow> (Some err, st)
          | Inr header \<Rightarrow>
              let filename = archive_name lib dir (v_file v);
                  header = header\<lparr>h_Name := filename\<rparr>;
                  di = v_devino v
              in (case seen st di of
                Some orig \<Rightarrow>
                  let header = header\<lparr>h_Typeflag := TypeLink, h_Linkname := orig, h_Size := 0\<rparr>
                  in (case v_WriteHeader v of
                        Some err \<Rightarrow> (Some err, st)
                      | None \<Rightarrow> (None, st\<lparr>tw := tw st @ [(header, [])], hLinks := hLinks st + 1\<rparr>))
              | None \<Rightarrow>
                  (case v_WriteHeader v of
                     Some err \<Rightarrow> (Some err, st)
                   | None \<Rightarrow>
                       (case v_Open v of
                          Some err \<Rightarrow> (Some err, st\<lparr>tw := tw st @ [(header, [])]\<rparr>)
                        | None \<Rightarrow>
                            let (copied, _) = v_Copy v
                            in (None, st\<lparr>tw := tw st @ [(header, copied)],
                                         seen := (seen st)(di \<mapsto> filename),
                                         nFiles := nFiles st + 1\<rparr>))))))"

text \<open>\<^verbatim>\<open>filepath.Walk\<close> stops at the first error its callback returns and returns it.\<close>

fun Walk :: "stdlib \<Rightarrow> string \<Rightarrow> visit list \<Rightarrow> tar_state \<Rightarrow> error option \<times> tar_state" where
  "Walk lib dir [] st = (None, st)"
| "Walk lib dir (v # vs) st =
     (case walkFn lib dir v st of
        (Some err, st') \<Rightarrow> (Some err, st')
      | (None, st') \<Rightarrow> Walk lib dir vs st')"

text \<open>
  \<^verbatim>\<open>tarDir\<close>. When the path is not a directory the source formats its message from
  \<^verbatim>\<open>err.Error()\<close>, and \<^verbatim>\<open>err\<close> is the error of \<^verbatim>\<open>os.Stat\<close>, at that point
  \<^verbatim>\<open>nil\<close>. The deferred function only logs.
\<close>

definition tarDir ::
  "stdlib \<Rightarrow> (string \<Rightarrow> root) \<Rightarrow> archive \<Rightarrow> string \<Rightarrow> (error option \<times> tar_state) outcome" where
  "tarDir lib fs tw0 dir =
     (let st0 = \<lparr>seen = Map.empty, tw = tw0, nFiles = 0, hLinks = 0\<rparr>
      in case r_Stat (fs dir) of
           Inl err \<Rightarrow> Return (Some (Errorf (''unable to tar files - '' @ Error err)), st0)
         | Inr isDir \<Rightarrow>
             let err = None
             in if \<not> isDir then
                  (case err_Error err of
                     Panic \<Rightarrow> Panic
                   | Return msg \<Rightarrow>
                       Return (Some (Errorf (''data path is not a directory - '' @ msg)), st0))
                else Return (Walk lib dir (r_visits (fs dir)) st0))"

text \<open>
  \<^verbatim>\<open>TarDirs\<close>: one writer for all roots, a fresh \<^verbatim>\<open>seen\<close> table for each root
  (\<^verbatim>\<open>TarDir\<close> only calls \<^verbatim>\<open>tarDir\<close>). The deferred \<^verbatim>\<open>tw.Close()\<close> has its
  result dropped.
\<close>

fun TarDirs_loop ::
  "stdlib \<Rightarrow> (string \<Rightarrow> root) \<Rightarrow> archive \<Rightarrow> string list \<Rightarrow> (error option \<times> archive) outcome" where
  "TarDirs_loop lib fs tw0 [] = Return (None, tw0)"
| "TarDirs_loop lib fs tw0 (dir # dirs) =
     (case tarDir lib fs tw0 dir of
        Panic \<Rightarrow> Panic
      | Return (Some err, st) \<Rightarrow> Return (Some err, tw st)
      | Return (None, st) \<Rightarrow> TarDirs_loop lib fs (tw st) dirs)"

definition TarDirs :: "stdlib \<Rightarrow> (string \<Rightarrow> root) \<Rightarrow> string list \<Rightarrow> (error option \<times> archive) outcome" where
  "TarDirs lib fs dirs = TarDirs_loop lib fs [] dirs"

text \<open>
  Reading an archive: an entry is a link entry when its type is \<open>TypeLink\<close>; a content
  entry is complete when its body has the length its header announces.
\<close>

definition is_link :: "Header \<times> string \<Rightarrow> bool" where
  "is_link e = (h_Typeflag (fst e) = TypeLink)"

definition complete :: "Header \<times> string \<Rightarrow> bool" where
  "complete e = (is_link e \<or> int (length (snd e)) = h_Size (fst e))"

definition links_to :: "string \<Rightarrow> Header \<times> string \<Rightarrow> bool" where
  "links_to orig e =
     (h_Typeflag (fst e) = TypeLink \<and> h_Linkname (fst e) = orig \<and> h_Size (fst e) = 0 \<and> snd e = [])"

text \<open>The files of a walk are its visits that are not directories.\<close>

definition files_of :: "visit list \<Rightarrow> visit list" where
  "files_of vs = filter (\<lambda>v. \<not> v_IsDir v) vs"

text \<open>A regular file: \<^verbatim>\<open>tar.FileInfoHeader\<close> gives it a header of type \<open>TypeReg\<close>.\<close>

definition regular :: "visit \<Rightarrow> bool" where
  "regular v = (case v_FileInfoHeader v of Inl _ \<Rightarrow> False | Inr h \<Rightarrow> h_Typeflag h = TypeReg)"

text \<open>
  The files of a root with a given identity, each paired with the entry the pass added
  for it.
\<close>

definition identity_group ::
  "devino \<Rightarrow> visit list \<Rightarrow> archive \<Rightarrow> (visit \<times> Header \<times> string) list" where
  "identity_group d files entries = filter (\<lambda>(v, e). v_devino v = d) (zip files entries)"

text \<open>
  The entries a walk adds when none of its steps fails, from the table \<^verbatim>\<open>seen\<close> it
  starts with.
\<close>

fun walk_entries :: "stdlib \<Rightarrow> string \<Rightarrow> (devino \<rightharpoonup> string) \<Rightarrow> visit list \<Rightarrow> archive" where
  "walk_entries lib dir sn [] = []"
| "walk_entries lib dir sn (v # vs) =
     (case v_FileInfoHeader v of
        Inl _ \<Rightarrow> walk_entries lib dir sn vs
      | Inr h \<Rightarrow>
          (case sn (v_devino v) of
             Some orig \<Rightarrow>
               (h\<lparr>h_Name := archive_name lib dir (v_file v), h_Typeflag := TypeLink,
                   h_Linkname := orig, h_Size := 0\<rparr>, []) # walk_entries lib dir sn vs
           | None \<Rightarrow>
               (h\<lparr>h_Name := archive_name lib dir (v_file v)\<rparr>, fst (v_Copy v)) #
               walk_entries lib dir (sn(v_devino v \<mapsto> archive_name lib dir (v_file v))) vs))"

text \<open>Sample trees.\<close>

definition file_visit :: "string \<Rightarrow> nat \<Rightarrow> string \<Rightarrow> visit" where
  "file_visit path ino content =
     \<lparr> v_file = path, v_err = None, v_IsDir = False,
       v_FileInfoHeader = Inr \<lparr> h_Name = base_name [] path, h_Typeflag = TypeReg,
                                h_Linkname = [], h_Size = int (length content) \<rparr>,
       v_devino = \<lparr> Dev = 1, Ino = of_nat ino \<rparr>,
       v_WriteHeader = None, v_Open = None, v_Copy = (content, None) \<rparr>"

definition dir_visit :: "string \<Rightarrow> nat \<Rightarrow> visit" where
  "dir_visit path ino =
     \<lparr> v_file = path, v_err = None, v_IsDir = True,
       v_FileInfoHeader = Inr \<lparr> h_Name = base_name [] path, h_Typeflag = TypeDir,
                                h_Linkname = [], h_Size = 0 \<rparr>,
       v_devino = \<lparr> Dev = 1, Ino = of_nat ino \<rparr>,
       v_WriteHeader = None, v_Open = None, v_Copy = ([], None) \<rparr>"

text \<open>
  A file of four bytes whose read fails after two: \<^verbatim>\<open>io.Copy\<close> moves two bytes
  and returns the error.
\<close>

definition failing_read_visit :: visit where
  "failing_read_visit =
     (file_visit ''/data/broken/x.bin'' 20 ''abcd'')
       \<lparr> v_Copy := (''ab'', Some (ErrOther ''read /data/broken/x.bin: input/output error'')) \<rparr>"

definition sample_fs :: "string \<Rightarrow> root" where
  "sample_fs dir =
     (if dir = ''/data/shadow'' then
        \<lparr> r_Stat = Inr True,
          r_visits = [dir_visit ''/data/shadow'' 2,
                      dir_visit ''/data/shadow/1'' 3,
                      file_visit ''/data/shadow/1/x.bin'' 10 ''abc'',
                      dir_visit ''/data/shadow/2'' 4,
                      file_visit ''/data/shadow/2/x.bin'' 10 ''abc'',
                      file_visit ''/data/shadow/2/y.bin'' 11 ''de'',
                      file_visit ''/data/shadow/2/z.bin'' 10 ''abc''] \<rparr>
      else if dir = ''/data/broken'' then
        \<lparr> r_Stat = Inr True,
          r_visits = [dir_visit ''/data/broken'' 5, failing_read_visit] \<rparr>
      else if dir = ''/data/notes.txt'' then
        \<lparr> r_Stat = Inr False, r_visits = [] \<rparr>
      else \<lparr> r_Stat = Inl ErrNotExist, r_visits = [] \<rparr>)"

text \<open>
  The files of the root \<open>dir\<close> whose identity is \<open>d\<close>, in the order of the walk, each
  with the entry that a pass starting from the archive \<open>tw0\<close> and ending in the state
  \<open>st\<close> added for it.
\<close>

definition root_group ::
  "(string \<Rightarrow> root) \<Rightarrow> string \<Rightarrow> devino \<Rightarrow> archive \<Rightarrow> tar_state \<Rightarrow> (visit \<times> Header \<times> string) list" where
  "root_group fs dir d tw0 st =
     identity_group d (files_of (r_visits (fs dir))) (drop (length tw0) (tw st))"

definition shadow_state :: tar_state where
  "shadow_state = snd (Walk sample_lib ''/data/shadow'' (r_visits (sample_fs ''/data/shadow''))
                         \<lparr>seen = Map.empty, tw = [], nFiles = 0, hLinks = 0\<rparr>)"

section \<open>Collaborators of the workflow\<close>

text \<open>
  The database client, the file system and the object store are outside the sources; the
  model takes their answers as given. \<^verbatim>\<open>Config\<close> and the dry-run flag only reach
  the workflow through the clients built from them, so a workflow function of the model
  takes the client where the source takes the configuration.

  \<^verbatim>\<open>RestoreTable\<close> is the argument of \<^verbatim>\<open>CreateTable\<close>. The answers of
  \<^verbatim>\<open>FreezeTable\<close> and \<^verbatim>\<open>CreateTable\<close> may depend on the calls made before.
\<close>

record RestoreTable =
  rt_Database :: string
  rt_Query :: string

datatype ch_call = CreateDatabase string | CreateTable RestoreTable

record ClickHouse =
  ch_Connect :: "error option"
  ch_GetDataPath :: "string \<times> error option"
  ch_GetTables :: "error + Table list"
  ch_FreezeTable :: "Table list \<Rightarrow> Table \<Rightarrow> error option"
  ch_CreateTable :: "ch_call list \<Rightarrow> RestoreTable \<Rightarrow> error option"

text \<open>An entry of a directory listing: the \<^verbatim>\<open>os.FileInfo\<close> methods the sources call.\<close>

record dirent =
  d_Name :: string
  d_IsDir :: bool

record filesystem =
  os_ReadDir :: "string \<Rightarrow> error + dirent list"
  os_ReadFile :: "string \<Rightarrow> error + string"

text \<open>The message both workflows return when the data path is missing.\<close>

definition data_path_error :: "error option \<Rightarrow> error" where
  "data_path_error err =
     Errorf (''can't get data path from clickhouse with: '' @ fmt_v err @ [CHR 0x0A] @
             ''you can set data_path in config file'')"

section \<open>Freeze\<close>

text \<open>
  The loop of \<^verbatim>\<open>freeze\<close> over the selected tables. The last argument is the list of
  tables \<^verbatim>\<open>FreezeTable\<close> has been called with so far.
\<close>

fun freeze_loop :: "ClickHouse \<Rightarrow> Table list \<Rightarrow> Table list \<Rightarrow> error option \<times> Table list" where
  "freeze_loop ch [] frozen = (None, frozen)"
| "freeze_loop ch (table # rest) frozen =
     (case ch_FreezeTable ch frozen table of
        Some err \<Rightarrow> (Some err, frozen @ [table])
      | None \<Rightarrow> freeze_loop ch rest (frozen @ [table]))"

text \<open>
  \<^verbatim>\<open>freeze\<close> returns its error together with the tables it has called
  \<^verbatim>\<open>FreezeTable\<close> with, in order.
\<close>

definition freeze ::
  "stdlib \<Rightarrow> ClickHouse \<Rightarrow> filesystem \<Rightarrow> string list \<Rightarrow> error option \<times> Table list" where
  "freeze lib ch fs args =
     (case ch_Connect ch of
        Some err \<Rightarrow> (Some (Errorf (''can't connect to clickouse with: '' @ Error err)), [])
      | None \<Rightarrow>
          let (dataPath, err) = ch_GetDataPath ch
          in if err \<noteq> None \<or> dataPath = [] then (Some (data_path_error err), [])
             else
               let shadowPath = filepath_Join lib [dataPath, ''shadow''];
                   blocked =
                     (case os_ReadDir fs shadowPath of
                        Inl err \<Rightarrow>
                          if \<not> os_IsNotExist err
                          then Some (Errorf (''can't read '' @ shadowPath @ '' directory: '' @ Error err))
                          else None
                      | Inr files \<Rightarrow>
                          if length files > 0
                          then Some (Errorf (shadowPath @ '' is not empty, won't execute freeze''))
                          else None)
               in case blocked of
                    Some err \<Rightarrow> (Some err, [])
                  | None \<Rightarrow>
                      (case ch_GetTables ch of
                         Inl err \<Rightarrow>
                           (Some (Errorf (''can't get Clickhouse tables with: '' @ Error err)), [])
                       | Inr allTables \<Rightarrow>
                           let (backupTables, err) = parseArgsForFreeze lib allTables args
                           in case err of
                                Some e \<Rightarrow> (Some e, [])
                              | None \<Rightarrow>
                                  if length backupTables = 0 then (None, [])
                                  else freeze_loop ch backupTables []))"

text \<open>
  The listing of the shadow directory that \<^verbatim>\<open>freeze\<close> asks for, and the two answers
  that let it go on: the directory does not exist, or it has no entry.
\<close>

definition shadow_listing :: "stdlib \<Rightarrow> ClickHouse \<Rightarrow> filesystem \<Rightarrow> error + dirent list" where
  "shadow_listing lib ch fs = os_ReadDir fs (filepath_Join lib [fst (ch_GetDataPath ch), ''shadow''])"

definition absent_or_empty :: "error + dirent list \<Rightarrow> bool" where
  "absent_or_empty listing =
     (case listing of Inl err \<Rightarrow> os_IsNotExist err | Inr files \<Rightarrow> files = [])"

section \<open>CreateTables\<close>

text \<open>
  \<^verbatim>\<open>strings.HasSuffix\<close>, \<^verbatim>\<open>strings.Replace(s, old, new, 1)\<close> and
  \<^verbatim>\<open>strings.Contains\<close>.
\<close>

definition strings_HasSuffix :: "string \<Rightarrow> string \<Rightarrow> bool" where
  "strings_HasSuffix s suffix =
     (length suffix \<le> length s \<and> drop (length s - length suffix) s = suffix)"

fun replace_first :: "string \<Rightarrow> string \<Rightarrow> string \<Rightarrow> string" where
  "replace_first old new [] = (if old = [] then new else [])"
| "replace_first old new (c # cs) =
     (if take (length old) (c # cs) = old then new @ drop (length old) (c # cs)
      else c # replace_first old new cs)"

fun strings_Contains :: "string \<Rightarrow> string \<Rightarrow> bool" where
  "strings_Contains [] substr = (substr = [])"
| "strings_Contains (c # cs) substr =
     (take (length substr) (c # cs) = substr \<or> strings_Contains cs substr)"

text \<open>
  The state of a run of \<^verbatim>\<open>createTables\<close>: the calls made to the database client, the
  lines written with \<^verbatim>\<open>log.Printf\<close>, and the slice \<^verbatim>\<open>distributedTables\<close>.
\<close>

record ct_state =
  calls :: "ch_call list"
  logs :: "string list"
  distributedTables :: "RestoreTable list"

definition log_Printf :: "string \<Rightarrow> ct_state \<Rightarrow> ct_state" where
  "log_Printf line st = st\<lparr>logs := logs st @ [line]\<rparr>"

text \<open>
  \<^verbatim>\<open>ch.CreateTable(table)\<close> with the handling both call sites give its error: the
  failure is logged, with the line \<open>error_line\<close>, and the run goes on.
\<close>

definition error_line :: "error \<Rightarrow> string" where
  "error_line err = ''ERROR Table creation failed: '' @ Error err"

definition create_and_log :: "ClickHouse \<Rightarrow> RestoreTable \<Rightarrow> ct_state \<Rightarrow> ct_state" where
  "create_and_log ch table st =
     (let result = ch_CreateTable ch (calls st) table;
          st = st\<lparr>calls := calls st @ [CreateTable table]\<rparr>
      in case result of
           Some err \<Rightarrow> log_Printf (error_line err) st
         | None \<Rightarrow> st)"

text \<open>The loop over the files of one database directory.\<close>

fun tables_loop ::
  "stdlib \<Rightarrow> ClickHouse \<Rightarrow> filesystem \<Rightarrow> string \<Rightarrow> string \<Rightarrow> dirent list \<Rightarrow> ct_state \<Rightarrow>
   error option \<times> ct_state" where
  "tables_loop lib ch fs databaseName databaseDir [] st = (None, st)"
| "tables_loop lib ch fs databaseName databaseDir (table # rest) st =
     (if strings_HasSuffix (d_Name table) ''sql'' then
        let tablePath = path_Join lib [databaseDir, d_Name table];
            st = log_Printf (''Found table: '' @ tablePath) st
        in case os_ReadFile fs tablePath of
             Inl err \<Rightarrow> (Some (Errorf (''can't read file '' @ tablePath @ '': '' @ Error err)), st)
           | Inr dat \<Rightarrow>
               let tableCreateQuery = replace_first ''ATTACH'' ''CREATE'' dat
               in if strings_Contains tableCreateQuery ''ENGINE = Distributed'' then
                    let st = log_Printf ''This is a distributed table, saving for later'' st;
                        st = st\<lparr>distributedTables := distributedTables st @
                                 [\<lparr>rt_Database = databaseName, rt_Query = tableCreateQuery\<rparr>]\<rparr>
                    in tables_loop lib ch fs databaseName databaseDir rest st
                  else
                    tables_loop lib ch fs databaseName databaseDir rest
                      (create_and_log ch
                         \<lparr>rt_Database = databaseName, rt_Query = tableCreateQuery\<rparr> st)
      else tables_loop lib ch fs databaseName databaseDir rest st)"

text \<open>The loop over the entries of the metadata directory.\<close>

fun files_loop ::
  "stdlib \<Rightarrow> ClickHouse \<Rightarrow> filesystem \<Rightarrow> string \<Rightarrow> dirent list \<Rightarrow> ct_state \<Rightarrow>
   error option \<times> ct_state" where
  "files_loop lib ch fs metadataPath [] st = (None, st)"
| "files_loop lib ch fs metadataPath (file # rest) st =
     (if d_IsDir file then
        let databaseName = d_Name file
        in if databaseName = ''system'' then files_loop lib ch fs metadataPath rest st
           else
             let st = log_Printf (''Found metadata files for database: '' @ databaseName) st;
                 st = st\<lparr>calls := calls st @ [CreateDatabase databaseName]\<rparr>;
                 databaseDir = path_Join lib [metadataPath, databaseName];
                 st = log_Printf (''Will analyze table information from here: '' @ databaseDir) st
             in case os_ReadDir fs databaseDir of
                  Inl err \<Rightarrow>
                    (Some (Errorf (''can't read database directory in metadata dir: '' @ Error err)),
                     st)
                | Inr tableFiles \<Rightarrow>
                    (case tables_loop lib ch fs databaseName databaseDir tableFiles st of
                       (Some err, st') \<Rightarrow> (Some err, st')
                     | (None, st') \<Rightarrow> files_loop lib ch fs metadataPath rest st')
      else files_loop lib ch fs metadataPath rest st)"

text \<open>The second loop, over the tables put aside.\<close>

fun distributed_loop :: "ClickHouse \<Rightarrow> RestoreTable list \<Rightarrow> ct_state \<Rightarrow> ct_state" where
  "distributed_loop ch [] st = st"
| "distributed_loop ch (table # rest) st = distributed_loop ch rest (create_and_log ch table st)"

definition createTables :: "stdlib \<Rightarrow> ClickHouse \<Rightarrow> filesystem \<Rightarrow> error option \<times> ct_state" where
  "createTables lib ch fs =
     (let st = \<lparr>calls = [], logs = [], distributedTables = []\<rparr>
      in case ch_Connect ch of
           Some err \<Rightarrow> (Some (Errorf (''can't connect to clickouse with: '' @ Error err)), st)
         | None \<Rightarrow>
             let (dataPath, err) = ch_GetDataPath ch
             in if err \<noteq> None \<or> dataPath = [] then (Some (data_path_error err), st)
                else
                  let st = log_Printf (''Found clickhouse data path: '' @ dataPath) st;
                      metadataPath = path_Join lib [dataPath, ''backup'', ''metadata''];
                      st = log_Printf (''Will analyze restored metadata from here: '' @ metadataPath) st
                  in case os_ReadDir fs metadataPath of
                       Inl err \<Rightarrow>
                         (Some (Errorf (''can't read metadata directory for creating tables: '' @
                                        Error err)), st)
                     | Inr files \<Rightarrow>
                         (case files_loop lib ch fs metadataPath files st of
                            (Some err, st') \<Rightarrow> (Some err, st')
                          | (None, st') \<Rightarrow>
                              (None, distributed_loop ch (distributedTables st')
                                       (log_Printf ''Creating distributed tables'' st'))))"

text \<open>
  Reading a run: the tables \<^verbatim>\<open>CreateTable\<close> was called with, in order, and whether a
  table is one the source classifies as distributed.
\<close>

fun created_tables :: "ch_call list \<Rightarrow> RestoreTable list" where
  "created_tables [] = []"
| "created_tables (CreateDatabase name # cs) = created_tables cs"
| "created_tables (CreateTable table # cs) = table # created_tables cs"

definition is_distributed :: "RestoreTable \<Rightarrow> bool" where
  "is_distributed table = strings_Contains (rt_Query table) ''ENGINE = Distributed''"

text \<open>
  What a run of \<^verbatim>\<open>createTables\<close> reads, apart from what it does with it: the table
  definitions of one database directory, in the order of the listing and up to the first
  file that cannot be read, with the error of that file.
\<close>

fun read_tables ::
  "stdlib \<Rightarrow> filesystem \<Rightarrow> string \<Rightarrow> string \<Rightarrow> dirent list \<Rightarrow> error option \<times> RestoreTable list" where
  "read_tables lib fs databaseName databaseDir [] = (None, [])"
| "read_tables lib fs databaseName databaseDir (table # rest) =
     (if strings_HasSuffix (d_Name table) ''sql'' then
        (case os_ReadFile fs (path_Join lib [databaseDir, d_Name table]) of
           Inl err \<Rightarrow>
             (Some (Errorf (''can't read file '' @ path_Join lib [databaseDir, d_Name table] @
                            '': '' @ Error err)), [])
         | Inr dat \<Rightarrow>
             (fst (read_tables lib fs databaseName databaseDir rest),
              \<lparr>rt_Database = databaseName, rt_Query = replace_first ''ATTACH'' ''CREATE'' dat\<rparr> #
              snd (read_tables lib fs databaseName databaseDir rest)))
      else read_tables lib fs databaseName databaseDir rest)"

text \<open>
  The same for the metadata directory: the definitions of its database directories, in
  order, \<^verbatim>\<open>system\<close> left out, up to the first directory or file that cannot be read.
\<close>

fun read_metadata ::
  "stdlib \<Rightarrow> filesystem \<Rightarrow> string \<Rightarrow> dirent list \<Rightarrow> error option \<times> RestoreTable list" where
  "read_metadata lib fs metadataPath [] = (None, [])"
| "read_metadata lib fs metadataPath (file # rest) =
     (if d_IsDir file \<and> d_Name file \<noteq> ''system'' then
        (case os_ReadDir fs (path_Join lib [metadataPath, d_Name file]) of
           Inl err \<Rightarrow>
             (Some (Errorf (''can't read database directory in metadata dir: '' @ Error err)), [])
         | Inr tableFiles \<Rightarrow>
             (case read_tables lib fs (d_Name file) (path_Join lib [metadataPath, d_Name file])
                     tableFiles of
                (Some err, defs) \<Rightarrow> (Some err, defs)
              | (None, defs) \<Rightarrow>
                  (fst (read_metadata lib fs metadataPath rest),
                   defs @ snd (read_metadata lib fs metadataPath rest))))
      else read_metadata lib fs metadataPath rest)"

text \<open>
  What a run reads in all, with the error it returns: the answers of the database client
  to \<^verbatim>\<open>Connect\<close> and \<^verbatim>\<open>GetDataPath\<close>, the listing of the metadata directory and
  the definitions under it. No answer of \<^verbatim>\<open>CreateTable\<close> enters it.
\<close>

definition planned :: "stdlib \<Rightarrow> ClickHouse \<Rightarrow> filesystem \<Rightarrow> error option \<times> RestoreTable list" where
  "planned lib ch fs =
     (case ch_Connect ch of
        Some err \<Rightarrow> (Some (Errorf (''can't connect to clickouse with: '' @ Error err)), [])
      | None \<Rightarrow>
          if snd (ch_GetDataPath ch) \<noteq> None \<or> fst (ch_GetDataPath ch) = []
          then (Some (data_path_error (snd (ch_GetDataPath ch))), [])
          else
            (case os_ReadDir fs (path_Join lib [fst (ch_GetDataPath ch), ''backup'', ''metadata'']) of
               Inl err \<Rightarrow>
                 (Some (Errorf (''can't read metadata directory for creating tables: '' @ Error err)),
                  [])
             | Inr files \<Rightarrow>
                 read_metadata lib fs
                   (path_Join lib [fst (ch_GetDataPath ch), ''backup'', ''metadata'']) files))"

text \<open>
  The failures of \<^verbatim>\<open>CreateTable\<close> in a sequence of calls, the lines of a log that
  report such a failure, and the relation between two states of a run that every failure
  among the calls added from the first to the second has its line in the log.
\<close>

fun failures :: "ClickHouse \<Rightarrow> ch_call list \<Rightarrow> ch_call list \<Rightarrow> error list" where
  "failures ch before [] = []"
| "failures ch before (CreateDatabase name # cs) = failures ch (before @ [CreateDatabase name]) cs"
| "failures ch before (CreateTable table # cs) =
     (case ch_CreateTable ch before table of Some err \<Rightarrow> [err] | None \<Rightarrow> []) @
     failures ch (before @ [CreateTable table]) cs"

definition error_lines :: "string list \<Rightarrow> string list" where
  "error_lines ls = filter (\<lambda>l. take 29 l = ''ERROR Table creation failed: '') ls"

definition run_ok :: "ClickHouse \<Rightarrow> ct_state \<Rightarrow> ct_state \<Rightarrow> bool" where
  "run_ok ch st st' =
     (\<exists>new. calls st' = calls st @ new \<and>
            error_lines (logs st') = error_lines (logs st) @ map error_line (failures ch (calls st) new))"

text \<open>The tables a run calls \<^verbatim>\<open>CreateTable\<close> with, in order.\<close>

definition creations :: "stdlib \<Rightarrow> ClickHouse \<Rightarrow> filesystem \<Rightarrow> RestoreTable list" where
  "creations lib ch fs = created_tables (calls (snd (createTables lib ch fs)))"

text \<open>
  The path of the metadata directory, and the condition that a run gets as far as its
  listing \<open>files\<close>: the database client connects and gives a data path, and the
  directory can be read.
\<close>

definition metadata_path :: "stdlib \<Rightarrow> ClickHouse \<Rightarrow> string" where
  "metadata_path lib ch = path_Join lib [fst (ch_GetDataPath ch), ''backup'', ''metadata'']"

definition lists_metadata :: "stdlib \<Rightarrow> ClickHouse \<Rightarrow> filesystem \<Rightarrow> dirent list \<Rightarrow> bool" where
  "lists_metadata lib ch fs files =
     (ch_Connect ch = None \<and> snd (ch_GetDataPath ch) = None \<and> fst (ch_GetDataPath ch) \<noteq> [] \<and>
      os_ReadDir fs (metadata_path lib ch) = Inr files)"

text \<open>Sample collaborators.\<close>

definition sample_ch :: ClickHouse where
  "sample_ch =
     \<lparr> ch_Connect = None,
       ch_GetDataPath = (''/var/lib/clickhouse'', None),
       ch_GetTables = Inr [table_a, table_b],
       ch_FreezeTable = (\<lambda>frozen table. None),
       ch_CreateTable = (\<lambda>before table.
          if strings_Contains (rt_Query table) ''TABLE broken''
          then Some (ErrOther ''syntax error'') else None) \<rparr>"

definition metadata_listing :: "string \<Rightarrow> error + dirent list" where
  "metadata_listing p =
     (if p = ''/var/lib/clickhouse/backup/metadata'' then
        Inr [\<lparr>d_Name = ''default'', d_IsDir = True\<rparr>, \<lparr>d_Name = ''system'', d_IsDir = True\<rparr>,
             \<lparr>d_Name = ''logs'', d_IsDir = True\<rparr>]
      else if p = ''/var/lib/clickhouse/backup/metadata/default'' then
        Inr [\<lparr>d_Name = ''all_orders.sql'', d_IsDir = False\<rparr>,
             \<lparr>d_Name = ''broken.sql'', d_IsDir = False\<rparr>,
             \<lparr>d_Name = ''orders.sql'', d_IsDir = False\<rparr>]
      else if p = ''/var/lib/clickhouse/backup/metadata/logs'' then
        Inr [\<lparr>d_Name = ''events.sql'', d_IsDir = False\<rparr>,
             \<lparr>d_Name = ''readme.txt'', d_IsDir = False\<rparr>]
      else Inl ErrNotExist)"

definition metadata_files :: "string \<Rightarrow> error + string" where
  "metadata_files p =
     (if p = ''/var/lib/clickhouse/backup/metadata/default/all_orders.sql'' then
        Inr ''ATTACH TABLE all_orders (id UInt64) ENGINE = Distributed(c, default, orders)''
      else if p = ''/var/lib/clickhouse/backup/metadata/default/broken.sql'' then
        Inr ''ATTACH TABLE broken (''
      else if p = ''/var/lib/clickhouse/backup/metadata/default/orders.sql'' then
        Inr ''ATTACH TABLE orders (id UInt64) ENGINE = Log''
      else if p = ''/var/lib/clickhouse/backup/metadata/logs/events.sql'' then
        Inr ''ATTACH TABLE events (id UInt64) ENGINE = Log''
      else Inl ErrNotExist)"

definition clean_os :: filesystem where
  "clean_os = \<lparr> os_ReadDir = metadata_listing, os_ReadFile = metadata_files \<rparr>"

definition dirty_os :: filesystem where
  "dirty_os =
     \<lparr> os_ReadDir = (\<lambda>p. if p = ''/var/lib/clickhouse/shadow''
                           then Inr [\<lparr>d_Name = ''1'', d_IsDir = True\<rparr>] else metadata_listing p),
       os_ReadFile = metadata_files \<rparr>"

definition unreadable_os :: filesystem where
  "unreadable_os =
     \<lparr> os_ReadDir = metadata_listing,
       os_ReadFile = (\<lambda>p. if p = ''/var/lib/clickhouse/backup/metadata/default/broken.sql''
                            then Inl (ErrOther ''permission denied'') else metadata_files p) \<rparr>"

section \<open>Retention and download\<close>

text \<open>
  The fields of \<^verbatim>\<open>Config\<close> these two workflows read: \<^verbatim>\<open>ClickHouse.DataPath\<close>,
  \<^verbatim>\<open>Backup.Strategy\<close>, \<^verbatim>\<open>Backup.BackupsToKeep\<close> and \<^verbatim>\<open>S3.Path\<close>.
\<close>

record Config =
  cfg_DataPath :: string
  cfg_Strategy :: string
  cfg_BackupsToKeep :: int
  cfg_S3_Path :: string

text \<open>
  An object of a listing, with its key and its \<^verbatim>\<open>LastModified\<close> time as a number
  (nanoseconds, say); every object of a listing carries the time.
\<close>

record BackupObject =
  o_Key :: string
  o_LastModified :: int

text \<open>
  The object store, and the calls to it and to the local side of a download that change
  something, as the trace of a run records them.
\<close>

datatype store_call =
    DeleteObjects "BackupObject list"
  | DownloadTree string string
  | DownloadArchive string string
  | Open string
  | Untar string string
  | Remove string

record S3 =
  s3_Connect :: "error option"
  s3_ListObjects :: "string \<Rightarrow> error + BackupObject list"
  s3_DeleteObjects :: "BackupObject list \<Rightarrow> error option"
  s3_DownloadTree :: "string \<Rightarrow> string \<Rightarrow> error option"
  s3_DownloadArchive :: "string \<Rightarrow> string \<Rightarrow> error option"

text \<open>
  The comparison \<^verbatim>\<open>removeOldBackups\<close> sorts with. \<^verbatim>\<open>Time.Sub\<close> saturates instead of
  overflowing, so its result has the sign of the difference.
\<close>

definition older :: "BackupObject \<Rightarrow> BackupObject \<Rightarrow> bool" where
  "older a b = (o_LastModified a - o_LastModified b < 0)"

text \<open>
  \<^verbatim>\<open>removeOldBackups\<close>. \<^verbatim>\<open>sort.Slice\<close> is a parameter: the library does not fix
  the order it gives to elements that compare as equal.
\<close>

definition removeOldBackups ::
  "((BackupObject \<Rightarrow> BackupObject \<Rightarrow> bool) \<Rightarrow> BackupObject list \<Rightarrow> BackupObject list) \<Rightarrow>
   Config \<Rightarrow> S3 \<Rightarrow> error option \<times> store_call list" where
  "removeOldBackups sort_Slice config s3 =
     (if cfg_BackupsToKeep config < 1 then (None, [])
      else
        (case s3_ListObjects s3 (cfg_S3_Path config) of
           Inl err \<Rightarrow> (Some err, [])
         | Inr objects \<Rightarrow>
             let backupsToDelete = int (length objects) - cfg_BackupsToKeep config
             in if backupsToDelete > 0 then
                  let objects = sort_Slice older objects;
                      batch = take (nat backupsToDelete) objects
                  in (case s3_DeleteObjects s3 batch of
                        Some err \<Rightarrow> (Some err, [DeleteObjects batch])
                      | None \<Rightarrow> (None, [DeleteObjects batch]))
                else (None, [])))"

text \<open>
  What \<^verbatim>\<open>sort.Slice\<close> promises of its result \<open>ys\<close> for the input \<open>xs\<close>: the same
  elements, and no element less than one before it.
\<close>

definition sorts_by :: "('a \<Rightarrow> 'a \<Rightarrow> bool) \<Rightarrow> 'a list \<Rightarrow> 'a list \<Rightarrow> bool" where
  "sorts_by lt xs ys = (mset ys = mset xs \<and> sorted_wrt (\<lambda>a b. \<not> lt b a) ys)"

text \<open>The objects a run has asked the store to delete.\<close>

fun deleted_objects :: "store_call list \<Rightarrow> BackupObject list" where
  "deleted_objects [] = []"
| "deleted_objects (DeleteObjects batch # cs) = batch @ deleted_objects cs"
| "deleted_objects (c # cs) = deleted_objects cs"

text \<open>One sorting function, by insertion, for evaluating the model.\<close>

fun insert_by :: "('a \<Rightarrow> 'a \<Rightarrow> bool) \<Rightarrow> 'a \<Rightarrow> 'a list \<Rightarrow> 'a list" where
  "insert_by lt x [] = [x]"
| "insert_by lt x (y # ys) = (if lt x y then x # y # ys else y # insert_by lt x ys)"

definition insertion_sort :: "('a \<Rightarrow> 'a \<Rightarrow> bool) \<Rightarrow> 'a list \<Rightarrow> 'a list" where
  "insertion_sort lt xs = foldr (insert_by lt) xs []"

definition sample_objects :: "BackupObject list" where
  "sample_objects =
     [\<lparr>o_Key = ''c.tar'', o_LastModified = 30\<rparr>, \<lparr>o_Key = ''a.tar'', o_LastModified = 10\<rparr>,
      \<lparr>o_Key = ''d.tar'', o_LastModified = 40\<rparr>, \<lparr>o_Key = ''b.tar'', o_LastModified = 20\<rparr>]"

definition sample_s3 :: S3 where
  "sample_s3 =
     \<lparr> s3_Connect = None,
       s3_ListObjects = (\<lambda>prefix. Inr sample_objects),
       s3_DeleteObjects = (\<lambda>batch. None),
       s3_DownloadTree = (\<lambda>remote local. None),
       s3_DownloadArchive = (\<lambda>name dir. None) \<rparr>"

definition sample_config :: Config where
  "sample_config =
     \<lparr> cfg_DataPath = ''/var/lib/clickhouse'', cfg_Strategy = ''archive'',
       cfg_BackupsToKeep = 2, cfg_S3_Path = ''backups'' \<rparr>"

text \<open>\<^verbatim>\<open>parseArgsForDownload\<close>\<close>

definition parseArgsForDownload :: "string list \<Rightarrow> string" where
  "parseArgsForDownload args = (if length args = 1 then args ! 0 else [])"

text \<open>
  The local side of a download: \<^verbatim>\<open>os.Open\<close> on the downloaded archive, and
  \<^verbatim>\<open>Untar\<close>, a function of the repository outside the two source files, here given by
  its result for an archive path and a destination.
\<close>

record local_archive =
  la_Open :: "string \<Rightarrow> error option"
  la_Untar :: "string \<Rightarrow> string \<Rightarrow> error option"

definition downloadTree :: "stdlib \<Rightarrow> S3 \<Rightarrow> string \<Rightarrow> error option \<times> store_call list" where
  "downloadTree lib s3 dataPath =
     (let metadata = path_Join lib [dataPath, ''backup'', ''metadata'']
      in case s3_DownloadTree s3 ''metadata'' metadata of
           Some err \<Rightarrow>
             (Some (Errorf (''cat't download metadata from s3 with '' @ Error err)),
              [DownloadTree ''metadata'' metadata])
         | None \<Rightarrow>
             let shadow = path_Join lib [dataPath, ''backup'', ''shadow'']
             in (case s3_DownloadTree s3 ''shadow'' shadow of
                   Some err \<Rightarrow>
                     (Some (Errorf (''can't download shadow from s3 with '' @ Error err)),
                      [DownloadTree ''metadata'' metadata, DownloadTree ''shadow'' shadow])
                 | None \<Rightarrow>
                     (None, [DownloadTree ''metadata'' metadata, DownloadTree ''shadow'' shadow])))"

text \<open>
  \<^verbatim>\<open>downloadArchive\<close>. The deferred \<^verbatim>\<open>os.Remove\<close> runs on every return after the
  \<^verbatim>\<open>defer\<close> statement.
\<close>

definition downloadArchive ::
  "stdlib \<Rightarrow> S3 \<Rightarrow> local_archive \<Rightarrow> string \<Rightarrow> string \<Rightarrow> error option \<times> store_call list" where
  "downloadArchive lib s3 la dataPath filename =
     (let metadata = path_Join lib [dataPath, ''backup'', ''metadata''];
          tr = [DownloadTree ''metadata'' metadata]
      in case s3_DownloadTree s3 ''metadata'' metadata of
           Some err \<Rightarrow> (Some (Errorf (''cat't download metadata from s3 with '' @ Error err)), tr)
         | None \<Rightarrow>
             let dstPath = path_Join lib [dataPath, ''backup''];
                 tr = tr @ [DownloadArchive filename dstPath]
             in (case s3_DownloadArchive s3 filename dstPath of
                   Some err \<Rightarrow>
                     (Some (Errorf (''error downloading shadow from s3 with '' @ Error err)), tr)
                 | None \<Rightarrow>
                     let archivePath = filepath_Join lib [dstPath, filepath_Base lib filename];
                         tr = tr @ [Open archivePath]
                     in (case la_Open la archivePath of
                           Some err \<Rightarrow>
                             (Some (Errorf (''error opening archive: '' @ Error err)),
                              tr @ [Remove archivePath])
                         | None \<Rightarrow>
                             let tr = tr @ [Untar archivePath dstPath]
                             in (case la_Untar la archivePath dstPath of
                                   Some err \<Rightarrow>
                                     (Some (Errorf (''error unarchiving: '' @ Error err)),
                                      tr @ [Remove archivePath])
                                 | None \<Rightarrow> (None, tr @ [Remove archivePath])))))"

text \<open>
  The first part of \<^verbatim>\<open>download\<close>: the data path of the configuration or, when that
  is empty, the one the database client gives.
\<close>

definition download_data_path :: "Config \<Rightarrow> ClickHouse \<Rightarrow> error + string" where
  "download_data_path config ch =
     (let dataPath = cfg_DataPath config
      in if dataPath = [] then
           (case ch_Connect ch of
              Some err \<Rightarrow>
                Inl (Errorf (''can't connect to clickhouse for get data path with: '' @ Error err @
                             [CHR 0x0A] @ ''you can set clickhouse.data_path in config''))
            | None \<Rightarrow>
                let (dataPath, err) = ch_GetDataPath ch
                in if err \<noteq> None \<or> dataPath = [] then Inl (data_path_error err)
                   else Inr dataPath)
         else Inr dataPath)"

definition missing_archive_name :: error where
  "missing_archive_name =
     Errorf ''an argument needs to be passed to download with archive strategy''"

definition download ::
  "stdlib \<Rightarrow> Config \<Rightarrow> ClickHouse \<Rightarrow> S3 \<Rightarrow> local_archive \<Rightarrow> string list \<Rightarrow>
   error option \<times> store_call list" where
  "download lib config ch s3 la args =
     (case download_data_path config ch of
        Inl err \<Rightarrow> (Some err, [])
      | Inr dataPath \<Rightarrow>
          (case s3_Connect s3 of
             Some err \<Rightarrow> (Some (Errorf (''can't connect to s3 with: '' @ Error err)), [])
           | None \<Rightarrow>
               let backupStrategy = cfg_Strategy config
               in if backupStrategy = ''tree'' then downloadTree lib s3 dataPath
                  else if backupStrategy = ''archive'' then
                    let filename = parseArgsForDownload args
                    in if filename = [] then (Some missing_archive_name, [])
                       else downloadArchive lib s3 la dataPath filename
                  else (Some (Errorf ''unsupported backup strategy''), [])))"

text \<open>
  A run of \<^verbatim>\<open>download\<close> gets as far as its strategy when it has a data path and the
  object store connects.
\<close>

definition reaches_strategy :: "Config \<Rightarrow> ClickHouse \<Rightarrow> S3 \<Rightarrow> bool" where
  "reaches_strategy config ch s3 =
     ((case download_data_path config ch of Inl _ \<Rightarrow> False | Inr _ \<Rightarrow> True) \<and>
      s3_Connect s3 = None)"

definition sample_local :: local_archive where
  "sample_local = \<lparr> la_Open = (\<lambda>path. None), la_Untar = (\<lambda>path dst. None) \<rparr>"


section \<open>Properties of table selection\<close>

lemma freeze_tables_loop_filter:
  "freeze_tables_loop lib arg ts result = result @ filter (freeze_selects lib arg) ts"
  by (induction ts arbitrary: result) (auto simp: freeze_selects_def split: prod.splits)

lemma freeze_args_loop_concat:
  "freeze_args_loop lib tables args result =
     result @ concat (map (\<lambda>arg. filter (freeze_selects lib arg) tables) args)"
  by (induction args arbitrary: result) (simp_all add: freeze_tables_loop_filter)

lemma increments_loop_member:
  "increments_loop ns t result = (if bt_Increment t \<in> set ns then result @ [t] else result)"
  by (induction ns) auto

lemma restore_tables_loop_filter:
  "restore_tables_loop lib arg increments ts result =
     result @ filter (restore_selects lib arg increments) ts"
  by (induction ts arbitrary: result)
     (auto simp: restore_selects_def increments_loop_member Let_def split: prod.splits)

lemma restore_args_loop_concat:
  "restore_args_loop lib order tables increments k args result =
     result @ concat (map (\<lambda>(i, arg). filter (restore_selects lib arg increments)
                                          (range_values tables (order i)))
                          (enumerate k args))"
  by (induction args arbitrary: result k) (simp_all add: restore_tables_loop_filter)

text \<open>
  C4, as the specification states it, fails: with the catalog \<open>[db.a, db.b]\<close> and the
  patterns \<open>db.b\<close>, \<open>db.a\<close> the selection for a freeze is \<open>[db.b, db.a]\<close>, the order
  of the patterns and the reverse of the catalog's.
\<close>

theorem selection_order_counterexample:
  "\<not> in_catalog_order [table_a, table_b]
       (fst (parseArgsForFreeze sample_lib [table_a, table_b] [''db.b'', ''db.a'']))"
  by (simp add: in_catalog_order_def parseArgsForFreeze_def sample_lib_def sample_Match_def
        sprintf_dot_def table_a_def table_b_def)

text \<open>
  C4, amended: the selection is grouped by pattern, the groups in the order of the
  patterns; the group of one pattern holds the catalog entries that pattern selects, in
  the order in which that pass visits the catalog. With no pattern a freeze returns the
  catalog as it is and a restore uses the single pattern \<open>*\<close>.
\<close>

theorem selection_grouped_by_pattern:
  "fst (parseArgsForFreeze lib tables args) =
     (if args = [] then tables
      else concat (map (\<lambda>arg. filter (freeze_selects lib arg) tables) args)) \<and>
   fst (parseArgsForRestore lib order catalog args increments) =
     concat (map (\<lambda>(i, arg). filter (restore_selects lib arg increments)
                                 (range_values catalog (order i)))
                 (enumerate 0 (if args = [] then [''*''] else args)))"
  by (simp add: parseArgsForFreeze_def parseArgsForRestore_def freeze_args_loop_concat
        restore_args_loop_concat)

theorem selection_grouped_by_pattern_witness:
  "fst (parseArgsForFreeze sample_lib [table_a, table_b] [''db.b'', ''db.*'']) =
     [table_b, table_a, table_b] \<and>
   fst (parseArgsForRestore sample_lib backup_order backup_catalog [''db.*'', ''*''] [2, 1]) =
     [backup_a1, backup_b2, backup_b2, backup_a1]"
  using selection_grouped_by_pattern [of sample_lib "[table_a, table_b]" "[''db.b'', ''db.*'']"
      backup_order backup_catalog "[2, 1]"]
    selection_grouped_by_pattern [of sample_lib "[table_a, table_b]" "[''db.*'', ''*'']"
      backup_order backup_catalog "[2, 1]"]
  by (simp add: freeze_selects_def restore_selects_def sample_lib_def sample_Match_def
        sprintf_dot_def table_a_def table_b_def backup_a1_def backup_b2_def backup_catalog_def
        backup_order_def range_values_def map_filter_def enumerate_eq_zip)

text \<open>
  C9: both selectors return the \<^verbatim>\<open>nil\<close> error on every input. The error of
  \<^verbatim>\<open>filepath.Match\<close> is dropped, so a pattern that the library reports as malformed
  (an error and no match, for every name) selects no table: alone it gives the empty
  selection, and next to other patterns it adds nothing.
\<close>

theorem selectors_never_fail:
  assumes malformed: "\<And>name. filepath_Match lib p name = (False, Some ErrBadPattern)"
  shows "snd (parseArgsForFreeze lib tables args) = None \<and>
         snd (parseArgsForRestore lib order catalog args increments) = None \<and>
         parseArgsForFreeze lib tables [p] = ([], None) \<and>
         parseArgsForRestore lib order catalog [p] increments = ([], None) \<and>
         fst (parseArgsForFreeze lib tables (args @ p # args')) =
           (if args @ args' = [] then [] else fst (parseArgsForFreeze lib tables (args @ args'))) \<and>
         fst (parseArgsForRestore lib order catalog (args @ [p]) increments) =
           (if args = [] then [] else fst (parseArgsForRestore lib order catalog args increments))"
proof -
  have f: "filter (freeze_selects lib p) ts = []" for ts
    by (simp add: freeze_selects_def malformed)
  have r: "filter (restore_selects lib p increments) bs = []" for bs
    by (simp add: restore_selects_def malformed)
  show ?thesis
    by (simp add: parseArgsForFreeze_def parseArgsForRestore_def freeze_args_loop_concat
          restore_args_loop_concat f r enumerate_append_eq)
qed

theorem selectors_never_fail_witness:
  "parseArgsForFreeze sample_lib [table_a, table_b] [''[''] = ([], None) \<and>
   parseArgsForRestore sample_lib backup_order backup_catalog [''[''] [] = ([], None) \<and>
   fst (parseArgsForFreeze sample_lib [table_a, table_b] ([''db.b''] @ ''['' # [])) = [table_b]"
proof -
  have m: "\<And>name. filepath_Match sample_lib ''['' name = (False, Some ErrBadPattern)"
    by (simp add: sample_lib_def sample_Match_def)
  show ?thesis
    using selectors_never_fail [of sample_lib "''[''" "[table_a, table_b]" "[''db.b'']"
        backup_order backup_catalog "[]" "[]", OF m]
    by (simp add: parseArgsForFreeze_def sample_lib_def sample_Match_def sprintf_dot_def
          table_a_def table_b_def)
qed

section \<open>Properties of the archive engine\<close>

lemma walkFn_ok:
  assumes "walkFn lib dir v st = (None, st')"
  shows "tw st' = tw st @ walk_entries lib dir (seen st) (files_of [v]) \<and>
         seen st' = (if v_IsDir v \<or> seen st (v_devino v) \<noteq> None then seen st
                     else (seen st)(v_devino v \<mapsto> archive_name lib dir (v_file v))) \<and>
         (\<not> v_IsDir v \<longrightarrow> (\<exists>h. v_FileInfoHeader v = Inr h))"
  using assms
  by (auto simp: walkFn_def files_of_def Let_def split: option.splits if_splits sum.splits prod.splits)

lemma walk_entries_Cons_file:
  assumes "v_FileInfoHeader v = Inr h"
  shows "walk_entries lib dir sn (v # vs) =
     walk_entries lib dir sn [v] @
     walk_entries lib dir (if sn (v_devino v) \<noteq> None then sn
                           else sn(v_devino v \<mapsto> archive_name lib dir (v_file v))) vs"
  using assms by (simp split: option.splits)

lemma Walk_ok:
  "Walk lib dir vs st = (None, st') \<Longrightarrow>
     tw st' = tw st @ walk_entries lib dir (seen st) (files_of vs) \<and>
     (\<forall>v \<in> set (files_of vs). \<exists>h. v_FileInfoHeader v = Inr h)"
proof (induction vs arbitrary: st)
  case Nil
  then show ?case by (simp add: files_of_def)
next
  case (Cons v vs)
  from Cons.prems obtain st1 where s1: "walkFn lib dir v st = (None, st1)"
    and rest: "Walk lib dir vs st1 = (None, st')"
    by (auto split: prod.splits option.splits)
  note a = walkFn_ok [OF s1]
  note b = Cons.IH [OF rest]
  show ?case
  proof (cases "v_IsDir v")
    case True
    with a b show ?thesis by (simp add: files_of_def)
  next
    case False
    with a obtain h where h: "v_FileInfoHeader v = Inr h" by auto
    have f: "files_of (v # vs) = v # files_of vs" using False by (simp add: files_of_def)
    have f1: "files_of [v] = [v]" using False by (simp add: files_of_def)
    have s: "seen st1 = (if seen st (v_devino v) \<noteq> None then seen st
                         else (seen st)(v_devino v \<mapsto> archive_name lib dir (v_file v)))"
      using a False by simp
    have "tw st' = (tw st @ walk_entries lib dir (seen st) [v]) @
                   walk_entries lib dir (seen st1) (files_of vs)"
      using a b f1 by simp
    also have "\<dots> = tw st @ walk_entries lib dir (seen st) (v # files_of vs)"
      unfolding walk_entries_Cons_file [OF h, of lib dir "seen st" "files_of vs"] s by simp
    finally have t: "tw st' = tw st @ walk_entries lib dir (seen st) (files_of (v # vs))"
      unfolding f .
    have "\<forall>v \<in> set (files_of (v # vs)). \<exists>h. v_FileInfoHeader v = Inr h"
      unfolding f using b h by simp
    with t show ?thesis by simp
  qed
qed

lemma walk_entries_length:
  "\<forall>v \<in> set fs. \<exists>h. v_FileInfoHeader v = Inr h \<Longrightarrow> length (walk_entries lib dir sn fs) = length fs"
  by (induction fs arbitrary: sn) (auto split: option.splits)

lemma group_Cons_other:
  assumes "v_FileInfoHeader v = Inr h" and "v_devino v \<noteq> d"
  shows "identity_group d (v # fs) (walk_entries lib dir sn (v # fs)) =
         identity_group d fs (walk_entries lib dir
            (if sn (v_devino v) \<noteq> None then sn
             else sn(v_devino v \<mapsto> archive_name lib dir (v_file v))) fs)"
  using assms by (simp add: identity_group_def split: option.splits)

lemma group_Cons_seen:
  assumes "v_FileInfoHeader v = Inr h" and "v_devino v = d" and "sn d = Some orig"
  shows "identity_group d (v # fs) (walk_entries lib dir sn (v # fs)) =
         (v, (h\<lparr>h_Name := archive_name lib dir (v_file v), h_Typeflag := TypeLink,
                 h_Linkname := orig, h_Size := 0\<rparr>, [])) #
         identity_group d fs (walk_entries lib dir sn fs)"
  using assms by (simp add: identity_group_def)

lemma group_Cons_first:
  assumes "v_FileInfoHeader v = Inr h" and "v_devino v = d" and "sn d = None"
  shows "identity_group d (v # fs) (walk_entries lib dir sn (v # fs)) =
         (v, (h\<lparr>h_Name := archive_name lib dir (v_file v)\<rparr>, fst (v_Copy v))) #
         identity_group d fs (walk_entries lib dir
            (sn(d \<mapsto> archive_name lib dir (v_file v))) fs)"
  using assms by (simp add: identity_group_def)

lemma group_seen:
  assumes "\<forall>v \<in> set fs. \<exists>h. v_FileInfoHeader v = Inr h" and "sn d = Some orig"
  shows "\<forall>(v, e) \<in> set (identity_group d fs (walk_entries lib dir sn fs)). links_to orig e"
  using assms
proof (induction fs arbitrary: sn)
  case Nil
  then show ?case by (simp add: identity_group_def)
next
  case (Cons v fs)
  then obtain h where h: "v_FileInfoHeader v = Inr h" by auto
  from Cons.prems have all: "\<forall>v \<in> set fs. \<exists>h. v_FileInfoHeader v = Inr h" by simp
  show ?case
  proof (cases "v_devino v = d")
    case True
    have "\<forall>(v, e) \<in> set (identity_group d fs (walk_entries lib dir sn fs)). links_to orig e"
      using all Cons.prems(2) by (rule Cons.IH)
    then show ?thesis
      unfolding group_Cons_seen [where sn = sn, OF h True Cons.prems(2)] by (simp add: links_to_def)
  next
    case False
    define sn' where "sn' = (if sn (v_devino v) \<noteq> None then sn
             else sn(v_devino v \<mapsto> archive_name lib dir (v_file v)))"
    have "sn' d = Some orig" using False Cons.prems(2) by (simp add: sn'_def)
    with all have "\<forall>(v, e) \<in> set (identity_group d fs (walk_entries lib dir sn' fs)). links_to orig e"
      by (rule Cons.IH)
    then show ?thesis
      unfolding group_Cons_other [OF h False] sn'_def .
  qed
qed

lemma group_unseen:
  assumes "\<forall>v \<in> set fs. \<exists>h. v_FileInfoHeader v = Inr h" and "sn d = None"
    and "identity_group d fs (walk_entries lib dir sn fs) = (v0, e0) # rest"
  shows "(\<exists>h. v_FileInfoHeader v0 = Inr h \<and>
              e0 = (h\<lparr>h_Name := archive_name lib dir (v_file v0)\<rparr>, fst (v_Copy v0))) \<and>
         (\<forall>(v, e) \<in> set rest. links_to (archive_name lib dir (v_file v0)) e)"
  using assms
proof (induction fs arbitrary: sn)
  case Nil
  then show ?case by (simp add: identity_group_def)
next
  case (Cons v fs)
  then obtain h where h: "v_FileInfoHeader v = Inr h" by auto
  from Cons.prems have all: "\<forall>v \<in> set fs. \<exists>h. v_FileInfoHeader v = Inr h" by simp
  show ?case
  proof (cases "v_devino v = d")
    case True
    define sn' where "sn' = sn(d \<mapsto> archive_name lib dir (v_file v))"
    have sd: "sn' d = Some (archive_name lib dir (v_file v))" by (simp add: sn'_def)
    have "identity_group d (v # fs) (walk_entries lib dir sn (v # fs)) =
            (v, (h\<lparr>h_Name := archive_name lib dir (v_file v)\<rparr>, fst (v_Copy v))) #
            identity_group d fs (walk_entries lib dir sn' fs)"
      unfolding sn'_def using h True Cons.prems(2) by (rule group_Cons_first)
    with Cons.prems(3) have eq: "(v0, e0) # rest =
            (v, (h\<lparr>h_Name := archive_name lib dir (v_file v)\<rparr>, fst (v_Copy v))) #
            identity_group d fs (walk_entries lib dir sn' fs)"
      by simp
    then have v0: "v0 = v" and e0: "e0 = (h\<lparr>h_Name := archive_name lib dir (v_file v)\<rparr>, fst (v_Copy v))"
      and rest: "rest = identity_group d fs (walk_entries lib dir sn' fs)" by simp_all
    have "\<forall>(w, e) \<in> set (identity_group d fs (walk_entries lib dir sn' fs)).
            links_to (archive_name lib dir (v_file v)) e"
      using all sd by (rule group_seen)
    then show ?thesis unfolding rest v0 e0 using h by simp
  next
    case False
    define sn' where "sn' = (if sn (v_devino v) \<noteq> None then sn
             else sn(v_devino v \<mapsto> archive_name lib dir (v_file v)))"
    have sd: "sn' d = None" using False Cons.prems(2) by (simp add: sn'_def)
    have "identity_group d fs (walk_entries lib dir sn' fs) = (v0, e0) # rest"
      using Cons.prems(3) unfolding group_Cons_other [OF h False] sn'_def .
    with all sd show ?thesis by (rule Cons.IH)
  qed
qed

lemma tarDir_ok:
  assumes "tarDir lib fs tw0 dir = Return (None, st)"
  shows "Walk lib dir (r_visits (fs dir)) \<lparr>seen = Map.empty, tw = tw0, nFiles = 0, hLinks = 0\<rparr> = (None, st)"
  using assms
  by (auto simp: tarDir_def err_Error_def Let_def split: sum.splits if_splits)

lemma length_group:
  "length xs = length ys \<Longrightarrow>
     length (identity_group d xs ys) = length (filter (\<lambda>v. v_devino v = d) xs)"
  by (induction xs ys rule: list_induct2) (simp_all add: identity_group_def)

lemma count_links:
  assumes "\<forall>(v, e) \<in> set rest. links_to orig e"
  shows "filter (\<lambda>(v, e). is_link e) rest = rest \<and> filter (\<lambda>(v, e). \<not> is_link e) rest = []"
  using assms by (induction rest) (auto simp: links_to_def is_link_def)

text \<open>
  C1: when the pass over one root ends without error, the files of that root that share
  one identity (regular files, \<open>k\<close> of them, \<open>k\<close> at least 1) have \<open>k\<close> entries
  in the archive: one content entry, for the first of them the walk visits, named by
  that file's archive path and holding what was copied from it, and \<open>k - 1\<close> link
  entries, each of size zero, without body, and with the name of that content entry as
  link name. Every file of the root has one entry.
\<close>

theorem hardlink_group_archived_once:
  assumes ok: "tarDir lib fs tw0 dir = Return (None, st)"
    and reg: "\<forall>(v, e) \<in> set (root_group fs dir d tw0 st). regular v"
    and ne: "root_group fs dir d tw0 st \<noteq> []"
  shows "length (drop (length tw0) (tw st)) = length (files_of (r_visits (fs dir))) \<and>
         length (root_group fs dir d tw0 st) =
           length (filter (\<lambda>v. v_devino v = d) (files_of (r_visits (fs dir)))) \<and>
         length (filter (\<lambda>(v, e). \<not> is_link e) (root_group fs dir d tw0 st)) = 1 \<and>
         length (filter (\<lambda>(v, e). is_link e) (root_group fs dir d tw0 st)) =
           length (root_group fs dir d tw0 st) - 1 \<and>
         (case hd (root_group fs dir d tw0 st) of (v0, e0) \<Rightarrow>
            \<not> is_link e0 \<and> h_Name (fst e0) = archive_name lib dir (v_file v0) \<and>
            snd e0 = fst (v_Copy v0) \<and>
            (\<forall>(v, e) \<in> set (tl (root_group fs dir d tw0 st)). links_to (h_Name (fst e0)) e))"
proof -
  let ?files = "files_of (r_visits (fs dir))"
  let ?new = "walk_entries lib dir Map.empty ?files"
  from Walk_ok [OF tarDir_ok [OF ok]]
  have tw: "tw st = tw0 @ ?new" and hdr: "\<forall>v \<in> set ?files. \<exists>h. v_FileInfoHeader v = Inr h"
    by simp_all
  have added: "drop (length tw0) (tw st) = ?new" by (simp add: tw)
  have len: "length ?new = length ?files" using hdr by (rule walk_entries_length)
  have g: "root_group fs dir d tw0 st = identity_group d ?files ?new"
    by (simp add: root_group_def added)
  from ne obtain v0 e0 rest where split: "identity_group d ?files ?new = (v0, e0) # rest"
    unfolding g by (cases "identity_group d ?files ?new") auto
  have "Map.empty d = None" by simp
  from group_unseen [OF hdr this split]
  obtain h where h: "v_FileInfoHeader v0 = Inr h"
    and e0: "e0 = (h\<lparr>h_Name := archive_name lib dir (v_file v0)\<rparr>, fst (v_Copy v0))"
    and links: "\<forall>(v, e) \<in> set rest. links_to (archive_name lib dir (v_file v0)) e"
    by blast
  have "regular v0" using reg unfolding g split by simp
  then have nl: "\<not> is_link e0" using h e0 by (simp add: regular_def is_link_def)
  note c = count_links [OF links]
  have n1: "h_Name (fst e0) = archive_name lib dir (v_file v0)" by (simp add: e0)
  have c1: "length (filter (\<lambda>(v, e). \<not> is_link e) ((v0, e0) # rest)) = 1"
    using nl c by simp
  have c2: "length (filter (\<lambda>(v, e). is_link e) ((v0, e0) # rest)) = length ((v0, e0) # rest) - 1"
    using nl c by simp
  have lg: "length (identity_group d ?files ?new) = length (filter (\<lambda>v. v_devino v = d) ?files)"
    using len by (simp add: length_group)
  show ?thesis
    unfolding added g using len lg c1 c2 nl n1 links e0 unfolding split by simp
qed

lemmas sample_tree_defs = sample_fs_def sample_lib_def file_visit_def dir_visit_def
  failing_read_visit_def walkFn_def archive_name_def strings_Replace_all_def
  strings_TrimPrefix_def Let_def

lemma shadow_tw: "tw shadow_state =
    [(\<lparr>h_Name = ''shadow/1/x.bin'', h_Typeflag = TypeReg, h_Linkname = [], h_Size = 3\<rparr>, ''abc''),
     (\<lparr>h_Name = ''shadow/2/x.bin'', h_Typeflag = TypeLink, h_Linkname = ''shadow/1/x.bin'',
        h_Size = 0\<rparr>, []),
     (\<lparr>h_Name = ''shadow/2/y.bin'', h_Typeflag = TypeReg, h_Linkname = [], h_Size = 2\<rparr>, ''de''),
     (\<lparr>h_Name = ''shadow/2/z.bin'', h_Typeflag = TypeLink, h_Linkname = ''shadow/1/x.bin'',
        h_Size = 0\<rparr>, [])]"
  by (simp add: shadow_state_def sample_tree_defs)

lemma shadow_ok: "tarDir sample_lib sample_fs [] ''/data/shadow'' = Return (None, shadow_state)"
  by (simp add: tarDir_def shadow_state_def sample_tree_defs)

lemma shadow_group:
  "root_group sample_fs ''/data/shadow'' \<lparr>Dev = 1, Ino = 10\<rparr> [] shadow_state =
     [(file_visit ''/data/shadow/1/x.bin'' 10 ''abc'', tw shadow_state ! 0),
      (file_visit ''/data/shadow/2/x.bin'' 10 ''abc'', tw shadow_state ! 1),
      (file_visit ''/data/shadow/2/z.bin'' 10 ''abc'', tw shadow_state ! 3)]"
  unfolding shadow_tw root_group_def identity_group_def files_of_def
  by (simp add: sample_fs_def file_visit_def dir_visit_def)

theorem hardlink_group_archived_once_witness:
  "tarDir sample_lib sample_fs [] ''/data/shadow'' = Return (None, shadow_state) \<and>
   length (root_group sample_fs ''/data/shadow'' \<lparr>Dev = 1, Ino = 10\<rparr> [] shadow_state) = 3 \<and>
   length (filter (\<lambda>(v, e). \<not> is_link e)
     (root_group sample_fs ''/data/shadow'' \<lparr>Dev = 1, Ino = 10\<rparr> [] shadow_state)) = 1 \<and>
   length (filter (\<lambda>(v, e). is_link e)
     (root_group sample_fs ''/data/shadow'' \<lparr>Dev = 1, Ino = 10\<rparr> [] shadow_state)) = 2"
proof -
  let ?g = "root_group sample_fs ''/data/shadow'' \<lparr>Dev = 1, Ino = 10\<rparr> [] shadow_state"
  have len: "length ?g = 3" by (simp add: shadow_group)
  have reg: "\<forall>(v, e) \<in> set ?g. regular v"
    by (simp add: shadow_group regular_def file_visit_def)
  have ne: "?g \<noteq> []" by (simp add: shadow_group)
  note t = hardlink_group_archived_once [OF shadow_ok reg ne]
  from t have a: "length (filter (\<lambda>(v, e). \<not> is_link e) ?g) = 1" by blast
  from t have b: "length (filter (\<lambda>(v, e). is_link e) ?g) = length ?g - 1" by blast
  from shadow_ok len a b show ?thesis by simp
qed

text \<open>
  C2 fails on the code: the result of \<^verbatim>\<open>io.Copy\<close> is not read. A root holding one
  file of four bytes whose read breaks off after two bytes is archived with the return
  value \<^verbatim>\<open>nil\<close>, and the archive holds an entry that announces four bytes and
  carries two.
\<close>

theorem copy_error_is_dropped:
  "v_Copy failing_read_visit =
     (''ab'', Some (ErrOther ''read /data/broken/x.bin: input/output error'')) \<and>
   TarDirs sample_lib sample_fs [''/data/broken''] =
     Return (None, [(\<lparr>h_Name = ''broken/x.bin'', h_Typeflag = TypeReg, h_Linkname = [],
                      h_Size = 4\<rparr>, ''ab'')]) \<and>
   \<not> complete (\<lparr>h_Name = ''broken/x.bin'', h_Typeflag = TypeReg, h_Linkname = [],
                 h_Size = 4\<rparr>, ''ab'')"
  by (simp add: TarDirs_def tarDir_def sample_tree_defs complete_def is_link_def)

text \<open>
  C3 fails on the code: for a root path that exists and is not a directory the message
  of the error is built from \<^verbatim>\<open>err.Error()\<close> with \<^verbatim>\<open>err\<close> equal to \<^verbatim>\<open>nil\<close>, so
  the call panics and no error is returned.
\<close>

theorem not_a_directory_panics:
  "r_Stat (sample_fs ''/data/notes.txt'') = Inr False \<and>
   TarDirs sample_lib sample_fs [''/data/notes.txt''] = Panic"
  by (simp add: TarDirs_def tarDir_def sample_tree_defs err_Error_def)

section \<open>Properties of the workflow\<close>

lemma created_tables_append:
  "created_tables (xs @ ys) = created_tables xs @ created_tables ys"
  by (induction xs rule: created_tables.induct) simp_all

lemma failures_append:
  "failures ch before (xs @ ys) = failures ch before xs @ failures ch (before @ xs) ys"
  by (induction ch before xs rule: failures.induct) simp_all

lemma error_lines_append: "error_lines (xs @ ys) = error_lines xs @ error_lines ys"
  by (simp add: error_lines_def)

lemma error_lines_error_line: "error_lines [error_line err] = [error_line err]"
  by (simp add: error_lines_def error_line_def)

lemma run_ok_refl: "run_ok ch st st"
  by (simp add: run_ok_def)

lemma run_ok_trans: "run_ok ch st st1 \<Longrightarrow> run_ok ch st1 st2 \<Longrightarrow> run_ok ch st st2"
  by (auto simp: run_ok_def failures_append)

lemma run_ok_log:
  "take 29 line \<noteq> ''ERROR Table creation failed: '' \<Longrightarrow> run_ok ch st (log_Printf line st)"
  by (simp add: run_ok_def log_Printf_def error_lines_def)

lemma create_and_log_calls:
  "calls (create_and_log ch t st) = calls st @ [CreateTable t] \<and>
   distributedTables (create_and_log ch t st) = distributedTables st"
  by (simp add: create_and_log_def log_Printf_def Let_def split: option.splits)

lemma create_and_log_ok: "run_ok ch st (create_and_log ch t st)"
  by (auto simp: run_ok_def create_and_log_def log_Printf_def Let_def error_lines_append
        error_lines_error_line split: option.splits)

lemma tables_loop_shape:
  "tables_loop lib ch fs dn dd tfs st = (r, st') \<Longrightarrow>
     r = fst (read_tables lib fs dn dd tfs) \<and>
     created_tables (calls st') = created_tables (calls st) @
        filter (\<lambda>t. \<not> is_distributed t) (snd (read_tables lib fs dn dd tfs)) \<and>
     distributedTables st' = distributedTables st @
        filter is_distributed (snd (read_tables lib fs dn dd tfs)) \<and>
     run_ok ch st st'"
proof (induction tfs arbitrary: st)
  case Nil
  then show ?case by (auto simp: run_ok_refl)
next
  case (Cons table rest)
  show ?case
  proof (cases "strings_HasSuffix (d_Name table) ''sql''")
    case False
    with Cons show ?thesis by simp
  next
    case True
    let ?p = "path_Join lib [dd, d_Name table]"
    let ?st1 = "log_Printf (''Found table: '' @ ?p) st"
    have ok1: "run_ok ch st ?st1" by (rule run_ok_log) simp
    have c1: "calls ?st1 = calls st" "distributedTables ?st1 = distributedTables st"
      by (simp_all add: log_Printf_def)
    show ?thesis
    proof (cases "os_ReadFile fs ?p")
      case (Inl err)
      with Cons.prems True ok1 c1 show ?thesis by (auto simp: Let_def)
    next
      case (Inr dat)
      let ?t = "\<lparr>rt_Database = dn, rt_Query = replace_first ''ATTACH'' ''CREATE'' dat\<rparr>"
      show ?thesis
      proof (cases "is_distributed ?t")
        case True
        let ?st2 = "(log_Printf ''This is a distributed table, saving for later'' ?st1)
                      \<lparr>distributedTables := distributedTables ?st1 @ [?t]\<rparr>"
        have rec: "tables_loop lib ch fs dn dd rest ?st2 = (r, st')"
          using Cons.prems \<open>strings_HasSuffix (d_Name table) ''sql''\<close> Inr True
          by (simp add: Let_def is_distributed_def log_Printf_def)
        have ok2: "run_ok ch st ?st2"
          using ok1 by (simp add: run_ok_def log_Printf_def error_lines_def)
        have c2: "calls ?st2 = calls st" "distributedTables ?st2 = distributedTables st @ [?t]"
          by (simp_all add: log_Printf_def)
        from Cons.IH [OF rec] ok2 c2 True Inr \<open>strings_HasSuffix (d_Name table) ''sql''\<close>
        show ?thesis by (auto intro: run_ok_trans)
      next
        case False
        let ?st2 = "create_and_log ch ?t ?st1"
        have rec: "tables_loop lib ch fs dn dd rest ?st2 = (r, st')"
          using Cons.prems \<open>strings_HasSuffix (d_Name table) ''sql''\<close> Inr False
          by (simp add: Let_def is_distributed_def)
        have ok2: "run_ok ch st ?st2"
          using ok1 create_and_log_ok by (rule run_ok_trans)
        have c2: "calls ?st2 = calls st @ [CreateTable ?t]" "distributedTables ?st2 = distributedTables st"
          using create_and_log_calls [of ch ?t ?st1] c1 by simp_all
        from Cons.IH [OF rec] ok2 c2 False Inr \<open>strings_HasSuffix (d_Name table) ''sql''\<close>
        show ?thesis by (auto simp: created_tables_append intro: run_ok_trans)
      qed
    qed
  qed
qed

lemma files_loop_shape:
  "files_loop lib ch fs mp files st = (r, st') \<Longrightarrow>
     r = fst (read_metadata lib fs mp files) \<and>
     created_tables (calls st') = created_tables (calls st) @
        filter (\<lambda>t. \<not> is_distributed t) (snd (read_metadata lib fs mp files)) \<and>
     distributedTables st' = distributedTables st @
        filter is_distributed (snd (read_metadata lib fs mp files)) \<and>
     run_ok ch st st'"
proof (induction files arbitrary: st)
  case Nil
  then show ?case by (auto simp: run_ok_refl)
next
  case (Cons entry rest)
  show ?case
  proof (cases "d_IsDir entry \<and> d_Name entry \<noteq> ''system''")
    case False
    then have rec: "files_loop lib ch fs mp rest st = (r, st')"
      using Cons.prems by (auto simp: Let_def split: if_splits)
    from Cons.IH [OF rec] False show ?thesis by auto
  next
    case True
    let ?dn = "d_Name entry"
    let ?dd = "path_Join lib [mp, ?dn]"
    let ?st1 = "log_Printf (''Will analyze table information from here: '' @ ?dd)
                  ((log_Printf (''Found metadata files for database: '' @ ?dn) st)
                     \<lparr>calls := calls (log_Printf (''Found metadata files for database: '' @ ?dn) st) @
                                [CreateDatabase ?dn]\<rparr>)"
    have c1: "calls ?st1 = calls st @ [CreateDatabase ?dn]"
      "distributedTables ?st1 = distributedTables st"
      by (simp_all add: log_Printf_def)
    have ok1: "run_ok ch st ?st1"
      by (simp add: run_ok_def log_Printf_def error_lines_def)
    show ?thesis
    proof (cases "os_ReadDir fs ?dd")
      case (Inl err)
      with Cons.prems True ok1 c1 show ?thesis
        by (auto simp: Let_def created_tables_append)
    next
      case (Inr tableFiles)
      obtain r1 st2 where tl: "tables_loop lib ch fs ?dn ?dd tableFiles ?st1 = (r1, st2)"
        by (cases "tables_loop lib ch fs ?dn ?dd tableFiles ?st1") auto
      note t = tables_loop_shape [OF tl]
      have ok2: "run_ok ch st st2" using ok1 t by (blast intro: run_ok_trans)
      show ?thesis
      proof (cases r1)
        case (Some err)
        with Cons.prems True Inr tl have "r = Some err" "st' = st2" by (auto simp: Let_def)
        with t ok2 c1 True Inr Some show ?thesis
          by (auto simp: created_tables_append split: prod.splits)
      next
        case None
        with Cons.prems True Inr tl have rec: "files_loop lib ch fs mp rest st2 = (r, st')"
          by (auto simp: Let_def)
        from Cons.IH [OF rec] t ok2 c1 True Inr None show ?thesis
          by (auto simp: created_tables_append split: prod.splits intro: run_ok_trans)
      qed
    qed
  qed
qed

lemma distributed_loop_shape:
  "calls (distributed_loop ch ts st) = calls st @ map CreateTable ts \<and>
   run_ok ch st (distributed_loop ch ts st)"
proof (induction ts arbitrary: st)
  case Nil
  show ?case by (simp add: run_ok_refl)
next
  case (Cons t ts)
  from Cons [of "create_and_log ch t st"] create_and_log_calls [of ch t st]
    create_and_log_ok [of ch st t]
  show ?case by (auto intro: run_ok_trans)
qed

lemma created_tables_map: "created_tables (map CreateTable ts) = ts"
  by (induction ts) simp_all

lemma createTables_shape:
  "fst (createTables lib ch fs) = fst (planned lib ch fs) \<and>
   created_tables (calls (snd (createTables lib ch fs))) =
     filter (\<lambda>t. \<not> is_distributed t) (snd (planned lib ch fs)) @
     (if fst (planned lib ch fs) = None then filter is_distributed (snd (planned lib ch fs)) else []) \<and>
   error_lines (logs (snd (createTables lib ch fs))) =
     map error_line (failures ch [] (calls (snd (createTables lib ch fs))))"
proof -
  let ?st0 = "\<lparr>calls = [], logs = [], distributedTables = []\<rparr>"
  have triv: "run_ok ch ?st0 st \<Longrightarrow>
      error_lines (logs st) = map error_line (failures ch [] (calls st))" for st
    by (auto simp: run_ok_def error_lines_def)
  show ?thesis
  proof (cases "ch_Connect ch")
    case (Some err)
    then show ?thesis by (simp add: createTables_def planned_def error_lines_def)
  next
    case None
    obtain dataPath err where dp: "ch_GetDataPath ch = (dataPath, err)"
      by (cases "ch_GetDataPath ch") auto
    show ?thesis
    proof (cases "err \<noteq> None \<or> dataPath = []")
      case True
      with None dp show ?thesis by (auto simp: createTables_def planned_def error_lines_def)
    next
      case False
      let ?mp = "path_Join lib [dataPath, ''backup'', ''metadata'']"
      let ?st1 = "log_Printf (''Will analyze restored metadata from here: '' @ ?mp)
                    (log_Printf (''Found clickhouse data path: '' @ dataPath) ?st0)"
      have c1: "calls ?st1 = []" "distributedTables ?st1 = []" by (simp_all add: log_Printf_def)
      have ok1: "run_ok ch ?st0 ?st1" by (simp add: run_ok_def log_Printf_def error_lines_def)
      show ?thesis
      proof (cases "os_ReadDir fs ?mp")
        case (Inl e)
        with None dp False c1 triv [OF ok1] show ?thesis
          by (simp add: createTables_def planned_def)
      next
        case (Inr files)
        obtain r st2 where fl: "files_loop lib ch fs ?mp files ?st1 = (r, st2)"
          by (cases "files_loop lib ch fs ?mp files ?st1") auto
        note f = files_loop_shape [OF fl]
        have ok2: "run_ok ch ?st0 st2" using ok1 f by (blast intro: run_ok_trans)
        have pl: "planned lib ch fs = read_metadata lib fs ?mp files"
          using None dp False Inr by (simp add: planned_def)
        show ?thesis
        proof (cases r)
          case (Some e)
          with None dp False Inr fl have ct: "createTables lib ch fs = (Some e, st2)"
            by (simp add: createTables_def)
          from f Some have r1: "fst (read_metadata lib fs ?mp files) = Some e" by simp
          from f c1 have r2: "created_tables (calls st2) =
              filter (\<lambda>t. \<not> is_distributed t) (snd (read_metadata lib fs ?mp files))" by simp
          from r1 r2 triv [OF ok2] show ?thesis unfolding ct pl by simp
        next
          case None': None
          let ?st3 = "log_Printf ''Creating distributed tables'' st2"
          let ?st4 = "distributed_loop ch (distributedTables st2) ?st3"
          from None None' dp False Inr fl have ct: "createTables lib ch fs = (None, ?st4)"
            by (simp add: createTables_def)
          have ok3: "run_ok ch st2 ?st3" by (rule run_ok_log) simp
          note d = distributed_loop_shape [of ch "distributedTables st2" ?st3]
          have ok4: "run_ok ch ?st0 ?st4" using ok2 ok3 d by (blast intro: run_ok_trans)
          have c3: "calls ?st3 = calls st2" by (simp add: log_Printf_def)
          from f None' have r1: "fst (read_metadata lib fs ?mp files) = None" by simp
          from f c1 have r2: "created_tables (calls st2) =
              filter (\<lambda>t. \<not> is_distributed t) (snd (read_metadata lib fs ?mp files))" by simp
          from f c1 have r3: "distributedTables st2 =
              filter is_distributed (snd (read_metadata lib fs ?mp files))" by simp
          from d c3 have r4: "calls ?st4 = calls st2 @ map CreateTable (distributedTables st2)"
            by simp
          from r1 r2 r3 r4 triv [OF ok4] show ?thesis unfolding ct pl
            by (simp add: created_tables_append created_tables_map)
        qed
      qed
    qed
  qed
qed

text \<open>
  C5: when the listing of the shadow directory fails with an error other than
  non-existence, or lists an entry, \<^verbatim>\<open>freeze\<close> returns an error and has called
  \<^verbatim>\<open>FreezeTable\<close> for no table; a run that calls \<^verbatim>\<open>FreezeTable\<close> at all found
  the shadow directory absent or empty.
\<close>

theorem freeze_needs_empty_shadow:
  "(\<not> absent_or_empty (shadow_listing lib ch fs) \<longrightarrow>
      fst (freeze lib ch fs args) \<noteq> None \<and> snd (freeze lib ch fs args) = []) \<and>
   (snd (freeze lib ch fs args) \<noteq> [] \<longrightarrow> absent_or_empty (shadow_listing lib ch fs))"
proof -
  have "fst (freeze lib ch fs args) \<noteq> None \<and> snd (freeze lib ch fs args) = []"
    if blocked: "\<not> absent_or_empty (shadow_listing lib ch fs)"
  proof (cases "ch_Connect ch")
    case (Some err)
    then show ?thesis by (simp add: freeze_def)
  next
    case None
    obtain dataPath err where dp: "ch_GetDataPath ch = (dataPath, err)"
      by (cases "ch_GetDataPath ch") auto
    show ?thesis
    proof (cases "err \<noteq> None \<or> dataPath = []")
      case True
      with None dp show ?thesis by (auto simp: freeze_def)
    next
      case False
      with None dp blocked show ?thesis
        by (auto simp: freeze_def shadow_listing_def absent_or_empty_def Let_def
              split: sum.splits)
    qed
  qed
  then show ?thesis by blast
qed

theorem freeze_needs_empty_shadow_witness:
  "\<not> absent_or_empty (shadow_listing sample_lib sample_ch dirty_os) \<and>
   freeze sample_lib sample_ch dirty_os [] =
     (Some (Errorf ''/var/lib/clickhouse/shadow is not empty, won't execute freeze''), []) \<and>
   freeze sample_lib sample_ch clean_os [] = (None, [table_a, table_b]) \<and>
   absent_or_empty (shadow_listing sample_lib sample_ch clean_os)"
proof -
  have d: "\<not> absent_or_empty (shadow_listing sample_lib sample_ch dirty_os)" by code_simp
  have e: "freeze sample_lib sample_ch dirty_os [] =
     (Some (Errorf ''/var/lib/clickhouse/shadow is not empty, won't execute freeze''), [])"
    by code_simp
  have c: "freeze sample_lib sample_ch clean_os [] = (None, [table_a, table_b])" by code_simp
  have n: "snd (freeze sample_lib sample_ch clean_os []) \<noteq> []" by (simp add: c table_a_def)
  from freeze_needs_empty_shadow [of sample_lib sample_ch clean_os "[]"] n
  have "absent_or_empty (shadow_listing sample_lib sample_ch clean_os)" by blast
  with d e c show ?thesis by simp
qed

lemma ordered_parts:
  assumes "cs = nd @ ds" and "\<forall>t \<in> set nd. \<not> P t" and "\<forall>t \<in> set ds. P t"
    and "i < length cs" and "j < length cs" and "P (cs ! i)" and "\<not> P (cs ! j)"
  shows "j < i"
proof -
  have "length nd \<le> i"
  proof (rule ccontr)
    assume "\<not> length nd \<le> i"
    then have "cs ! i \<in> set nd" using assms(1) by (simp add: nth_append)
    with assms(2,6) show False by blast
  qed
  moreover have "j < length nd"
  proof (rule ccontr)
    assume a: "\<not> j < length nd"
    then have "cs ! j = ds ! (j - length nd)" using assms(1) by (simp add: nth_append)
    moreover have "j - length nd < length ds" using a assms(1,5) by simp
    ultimately have "cs ! j \<in> set ds" by simp
    with assms(3,7) show False by blast
  qed
  ultimately show ?thesis by simp
qed

text \<open>
  C6: in the sequence of \<^verbatim>\<open>CreateTable\<close> calls of a run, every call for a table that
  is not distributed comes before every call for a distributed one, whatever the order of
  the listings; and when the run returns \<^verbatim>\<open>nil\<close> the sequence is: the definitions of
  all databases that are not distributed, then the distributed ones.
\<close>

theorem distributed_tables_created_last:
  "(\<forall>i j. i < length (creations lib ch fs) \<and> j < length (creations lib ch fs) \<and>
          is_distributed (creations lib ch fs ! i) \<and> \<not> is_distributed (creations lib ch fs ! j)
          \<longrightarrow> j < i) \<and>
   (fst (createTables lib ch fs) = None \<longrightarrow>
      creations lib ch fs =
        filter (\<lambda>t. \<not> is_distributed t) (snd (planned lib ch fs)) @
        filter is_distributed (snd (planned lib ch fs)))"
proof -
  let ?nd = "filter (\<lambda>t. \<not> is_distributed t) (snd (planned lib ch fs))"
  let ?ds = "if fst (planned lib ch fs) = None
             then filter is_distributed (snd (planned lib ch fs)) else []"
  note s = createTables_shape [of lib ch fs]
  have eq: "creations lib ch fs = ?nd @ ?ds" using s by (simp add: creations_def)
  have nd: "\<forall>t \<in> set ?nd. \<not> is_distributed t" by simp
  have ds: "\<forall>t \<in> set ?ds. is_distributed t" by simp
  have "j < i" if "i < length (creations lib ch fs)" "j < length (creations lib ch fs)"
      "is_distributed (creations lib ch fs ! i)" "\<not> is_distributed (creations lib ch fs ! j)"
    for i j
    using eq nd ds that by (rule ordered_parts)
  moreover have "fst (createTables lib ch fs) = None \<longrightarrow> creations lib ch fs =
        filter (\<lambda>t. \<not> is_distributed t) (snd (planned lib ch fs)) @
        filter is_distributed (snd (planned lib ch fs))"
    using s eq by simp
  ultimately show ?thesis by blast
qed

lemma sample_creations: "creations sample_lib sample_ch clean_os =
   [\<lparr>rt_Database = ''default'', rt_Query = ''CREATE TABLE broken (''\<rparr>,
    \<lparr>rt_Database = ''default'', rt_Query = ''CREATE TABLE orders (id UInt64) ENGINE = Log''\<rparr>,
    \<lparr>rt_Database = ''logs'', rt_Query = ''CREATE TABLE events (id UInt64) ENGINE = Log''\<rparr>,
    \<lparr>rt_Database = ''default'',
      rt_Query = ''CREATE TABLE all_orders (id UInt64) ENGINE = Distributed(c, default, orders)''\<rparr>]"
  by code_simp

theorem distributed_tables_created_last_witness:
  "is_distributed (creations sample_lib sample_ch clean_os ! 3) \<and>
   \<not> is_distributed (creations sample_lib sample_ch clean_os ! 2) \<and>
   length (creations sample_lib sample_ch clean_os) = 4 \<and> (2::nat) < 3 \<and>
   fst (createTables sample_lib sample_ch clean_os) = None \<and>
   creations sample_lib sample_ch clean_os =
     filter (\<lambda>t. \<not> is_distributed t) (snd (planned sample_lib sample_ch clean_os)) @
     filter is_distributed (snd (planned sample_lib sample_ch clean_os))"
proof -
  have a: "is_distributed (creations sample_lib sample_ch clean_os ! 3)"
    unfolding sample_creations by code_simp
  have b: "\<not> is_distributed (creations sample_lib sample_ch clean_os ! 2)"
    unfolding sample_creations by code_simp
  have l: "length (creations sample_lib sample_ch clean_os) = 4"
    unfolding sample_creations by simp
  have r: "fst (createTables sample_lib sample_ch clean_os) = None" by code_simp
  from distributed_tables_created_last [of sample_lib sample_ch clean_os] a b l r
  show ?thesis by simp
qed

text \<open>
  C7, as stated, fails where the failure of a table is a definition file that cannot be
  read: the run returns the error at once, and neither the tables listed after it nor
  the tables of the databases after it are created.
\<close>

theorem unreadable_definition_counterexample:
  "os_ReadFile unreadable_os ''/var/lib/clickhouse/backup/metadata/default/broken.sql'' =
     Inl (ErrOther ''permission denied'') \<and>
   os_ReadFile unreadable_os ''/var/lib/clickhouse/backup/metadata/default/orders.sql'' =
     Inr ''ATTACH TABLE orders (id UInt64) ENGINE = Log'' \<and>
   fst (createTables sample_lib sample_ch unreadable_os) =
     Some (Errorf ''can't read file /var/lib/clickhouse/backup/metadata/default/broken.sql: permission denied'') \<and>
   creations sample_lib sample_ch unreadable_os = []"
  by code_simp

lemma planned_update:
  "planned lib (ch\<lparr>ch_CreateTable := f\<rparr>) fs = planned lib ch fs"
  by (simp add: planned_def cong: option.case_cong sum.case_cong)

lemma read_tables_append:
  "fst (read_tables lib fs dn dd xs) = None \<Longrightarrow>
     read_tables lib fs dn dd (xs @ ys) =
       (fst (read_tables lib fs dn dd ys),
        snd (read_tables lib fs dn dd xs) @ snd (read_tables lib fs dn dd ys))"
  by (induction xs) (auto split: sum.splits if_splits)

lemma read_metadata_append:
  "fst (read_metadata lib fs mp xs) = None \<Longrightarrow>
     read_metadata lib fs mp (xs @ ys) =
       (fst (read_metadata lib fs mp ys),
        snd (read_metadata lib fs mp xs) @ snd (read_metadata lib fs mp ys))"
  by (induction xs) (auto split: sum.splits if_splits prod.splits option.splits)

lemma planned_lists:
  "lists_metadata lib ch fs files \<Longrightarrow>
     planned lib ch fs = read_metadata lib fs (metadata_path lib ch) files"
  by (simp add: lists_metadata_def planned_def metadata_path_def)

lemma unreadable_file_aborts:
  assumes l: "lists_metadata lib ch fs (pre @ db # post)"
    and d: "d_IsDir db" "d_Name db \<noteq> ''system''"
    and p: "fst (read_metadata lib fs (metadata_path lib ch) pre) = None"
    and r: "os_ReadDir fs (path_Join lib [metadata_path lib ch, d_Name db]) = Inr (tpre @ t # tpost)"
    and s: "strings_HasSuffix (d_Name t) ''sql''"
    and tp: "fst (read_tables lib fs (d_Name db) (path_Join lib [metadata_path lib ch, d_Name db]) tpre) = None"
    and e: "os_ReadFile fs (path_Join lib [path_Join lib [metadata_path lib ch, d_Name db], d_Name t]) = Inl err"
  shows "fst (createTables lib ch fs) =
           Some (Errorf (''can't read file '' @
                         path_Join lib [path_Join lib [metadata_path lib ch, d_Name db], d_Name t] @
                         '': '' @ Error err)) \<and>
         creations lib ch fs =
           filter (\<lambda>x. \<not> is_distributed x)
             (snd (read_metadata lib fs (metadata_path lib ch) pre) @
              snd (read_tables lib fs (d_Name db) (path_Join lib [metadata_path lib ch, d_Name db]) tpre))"
proof -
  let ?mp = "metadata_path lib ch"
  let ?dd = "path_Join lib [?mp, d_Name db]"
  let ?E = "Errorf (''can't read file '' @ path_Join lib [?dd, d_Name t] @ '': '' @ Error err)"
  have t1: "read_tables lib fs (d_Name db) ?dd (t # tpost) = (Some ?E, [])"
    using s e by simp
  have t2: "read_tables lib fs (d_Name db) ?dd (tpre @ t # tpost) =
      (Some ?E, snd (read_tables lib fs (d_Name db) ?dd tpre))"
    using read_tables_append [OF tp, of "t # tpost"] t1 by simp
  have m1: "read_metadata lib fs ?mp (db # post) =
      (Some ?E, snd (read_tables lib fs (d_Name db) ?dd tpre))"
    using d r t2 by simp
  have m2: "read_metadata lib fs ?mp (pre @ db # post) =
      (Some ?E, snd (read_metadata lib fs ?mp pre) @ snd (read_tables lib fs (d_Name db) ?dd tpre))"
    using read_metadata_append [OF p, of "db # post"] m1 by simp
  have pl: "planned lib ch fs =
      (Some ?E, snd (read_metadata lib fs ?mp pre) @ snd (read_tables lib fs (d_Name db) ?dd tpre))"
    using planned_lists [OF l] m2 by simp
  from createTables_shape [of lib ch fs] show ?thesis
    unfolding pl creations_def by simp
qed

text \<open>
  C7, amended to failures of the creation itself: whatever \<^verbatim>\<open>CreateTable\<close> answers,
  the run returns the same value and calls \<^verbatim>\<open>CreateTable\<close> with the same tables in
  the same order as a run in which the answers are \<open>f\<close> (for one, no failure at all);
  every failed call has its line in the log, in order; and a run that returns
  \<^verbatim>\<open>nil\<close> has called \<^verbatim>\<open>CreateTable\<close> once for every definition it read. A definition
  file that cannot be read is not skipped: when the first read that fails is that of the
  file \<open>t\<close> of the database directory \<open>db\<close>, the run returns the error of that read,
  and the tables it has created are the ones read before \<open>t\<close> that are not distributed:
  no table listed after \<open>t\<close>, no table of a later database and no distributed table.
\<close>

theorem creation_failures_are_skipped:
  "fst (createTables lib (ch\<lparr>ch_CreateTable := f\<rparr>) fs) = fst (createTables lib ch fs) \<and>
   creations lib (ch\<lparr>ch_CreateTable := f\<rparr>) fs = creations lib ch fs \<and>
   error_lines (logs (snd (createTables lib ch fs))) =
     map error_line (failures ch [] (calls (snd (createTables lib ch fs)))) \<and>
   (fst (createTables lib ch fs) = None \<longrightarrow>
      creations lib ch fs =
        filter (\<lambda>t. \<not> is_distributed t) (snd (planned lib ch fs)) @
        filter is_distributed (snd (planned lib ch fs))) \<and>
   (lists_metadata lib ch fs (pre @ db # post) \<and> d_IsDir db \<and> d_Name db \<noteq> ''system'' \<and>
    fst (read_metadata lib fs (metadata_path lib ch) pre) = None \<and>
    os_ReadDir fs (path_Join lib [metadata_path lib ch, d_Name db]) = Inr (tpre @ t # tpost) \<and>
    strings_HasSuffix (d_Name t) ''sql'' \<and>
    fst (read_tables lib fs (d_Name db) (path_Join lib [metadata_path lib ch, d_Name db]) tpre) = None \<and>
    os_ReadFile fs (path_Join lib [path_Join lib [metadata_path lib ch, d_Name db], d_Name t]) = Inl err
    \<longrightarrow>
      fst (createTables lib ch fs) =
        Some (Errorf (''can't read file '' @
                      path_Join lib [path_Join lib [metadata_path lib ch, d_Name db], d_Name t] @
                      '': '' @ Error err)) \<and>
      creations lib ch fs =
        filter (\<lambda>x. \<not> is_distributed x)
          (snd (read_metadata lib fs (metadata_path lib ch) pre) @
           snd (read_tables lib fs (d_Name db) (path_Join lib [metadata_path lib ch, d_Name db]) tpre)))"
proof -
  have a: "fst (createTables lib (ch\<lparr>ch_CreateTable := f\<rparr>) fs) = fst (createTables lib ch fs) \<and>
   creations lib (ch\<lparr>ch_CreateTable := f\<rparr>) fs = creations lib ch fs \<and>
   error_lines (logs (snd (createTables lib ch fs))) =
     map error_line (failures ch [] (calls (snd (createTables lib ch fs)))) \<and>
   (fst (createTables lib ch fs) = None \<longrightarrow>
      creations lib ch fs =
        filter (\<lambda>t. \<not> is_distributed t) (snd (planned lib ch fs)) @
        filter is_distributed (snd (planned lib ch fs)))"
    using createTables_shape [of lib ch fs]
      createTables_shape [of lib "ch\<lparr>ch_CreateTable := f\<rparr>" fs]
    by (simp add: creations_def planned_update)
  from a unreadable_file_aborts [of lib ch fs pre db post tpre t tpost err]
  show ?thesis by blast
qed

theorem creation_failures_are_skipped_witness:
  "ch_CreateTable sample_ch [CreateDatabase ''default'']
      \<lparr>rt_Database = ''default'', rt_Query = ''CREATE TABLE broken (''\<rparr> =
     Some (ErrOther ''syntax error'') \<and>
   fst (createTables sample_lib sample_ch clean_os) = None \<and>
   fst (createTables sample_lib (sample_ch\<lparr>ch_CreateTable := (\<lambda>before table. None)\<rparr>) clean_os) = None \<and>
   creations sample_lib (sample_ch\<lparr>ch_CreateTable := (\<lambda>before table. None)\<rparr>) clean_os =
     creations sample_lib sample_ch clean_os \<and>
   length (creations sample_lib sample_ch clean_os) = 4 \<and>
   error_lines (logs (snd (createTables sample_lib sample_ch clean_os))) =
     [''ERROR Table creation failed: syntax error''] \<and>
   os_ReadFile unreadable_os ''/var/lib/clickhouse/backup/metadata/default/broken.sql'' =
     Inl (ErrOther ''permission denied'') \<and>
   fst (createTables sample_lib sample_ch unreadable_os) =
     Some (Errorf ''can't read file /var/lib/clickhouse/backup/metadata/default/broken.sql: permission denied'') \<and>
   creations sample_lib sample_ch unreadable_os = []"
proof -
  have a: "ch_CreateTable sample_ch [CreateDatabase ''default'']
      \<lparr>rt_Database = ''default'', rt_Query = ''CREATE TABLE broken (''\<rparr> =
     Some (ErrOther ''syntax error'')" by code_simp
  have r: "fst (createTables sample_lib sample_ch clean_os) = None" by code_simp
  have l: "length (creations sample_lib sample_ch clean_os) = 4"
    unfolding sample_creations by simp
  have e: "map error_line (failures sample_ch [] (calls (snd (createTables sample_lib sample_ch clean_os)))) =
     [''ERROR Table creation failed: syntax error'']" by code_simp
  let ?pre = "[] :: dirent list"
  let ?db = "\<lparr>d_Name = ''default'', d_IsDir = True\<rparr>"
  let ?post = "[\<lparr>d_Name = ''system'', d_IsDir = True\<rparr>, \<lparr>d_Name = ''logs'', d_IsDir = True\<rparr>]"
  let ?tpre = "[\<lparr>d_Name = ''all_orders.sql'', d_IsDir = False\<rparr>]"
  let ?t = "\<lparr>d_Name = ''broken.sql'', d_IsDir = False\<rparr>"
  let ?tpost = "[\<lparr>d_Name = ''orders.sql'', d_IsDir = False\<rparr>]"
  let ?err = "ErrOther ''permission denied''"
  have mp: "metadata_path sample_lib sample_ch = ''/var/lib/clickhouse/backup/metadata''"
    by code_simp
  have h1: "lists_metadata sample_lib sample_ch unreadable_os (?pre @ ?db # ?post)" by code_simp
  have h2: "d_IsDir ?db \<and> d_Name ?db \<noteq> ''system''" by simp
  have h3: "fst (read_metadata sample_lib unreadable_os (metadata_path sample_lib sample_ch) ?pre) = None"
    by simp
  have h4: "os_ReadDir unreadable_os (path_Join sample_lib [metadata_path sample_lib sample_ch, d_Name ?db]) =
      Inr (?tpre @ ?t # ?tpost)" by code_simp
  have h5: "strings_HasSuffix (d_Name ?t) ''sql''" by code_simp
  have h6: "fst (read_tables sample_lib unreadable_os (d_Name ?db)
      (path_Join sample_lib [metadata_path sample_lib sample_ch, d_Name ?db]) ?tpre) = None"
    by code_simp
  have h7: "os_ReadFile unreadable_os (path_Join sample_lib
      [path_Join sample_lib [metadata_path sample_lib sample_ch, d_Name ?db], d_Name ?t]) = Inl ?err"
    by code_simp
  have p: "path_Join sample_lib
      [path_Join sample_lib [metadata_path sample_lib sample_ch, d_Name ?db], d_Name ?t] =
      ''/var/lib/clickhouse/backup/metadata/default/broken.sql''" by code_simp
  have n: "filter (\<lambda>x. \<not> is_distributed x)
          (snd (read_metadata sample_lib unreadable_os (metadata_path sample_lib sample_ch) ?pre) @
           snd (read_tables sample_lib unreadable_os (d_Name ?db)
             (path_Join sample_lib [metadata_path sample_lib sample_ch, d_Name ?db]) ?tpre)) = []"
    by code_simp
  have f: "os_ReadFile unreadable_os ''/var/lib/clickhouse/backup/metadata/default/broken.sql'' =
     Inl (ErrOther ''permission denied'')" by code_simp
  from creation_failures_are_skipped [where lib = sample_lib and ch = sample_ch and fs = unreadable_os and pre = ?pre
      and db = ?db and post = ?post and tpre = ?tpre and t = ?t and tpost = ?tpost and err = ?err]
    h1 h2 h3 h4 h5 h6 h7
  have u: "fst (createTables sample_lib sample_ch unreadable_os) =
        Some (Errorf (''can't read file '' @
                      path_Join sample_lib [path_Join sample_lib [metadata_path sample_lib sample_ch, d_Name ?db], d_Name ?t] @
                      '': '' @ Error ?err)) \<and>
      creations sample_lib sample_ch unreadable_os =
        filter (\<lambda>x. \<not> is_distributed x)
          (snd (read_metadata sample_lib unreadable_os (metadata_path sample_lib sample_ch) ?pre) @
           snd (read_tables sample_lib unreadable_os (d_Name ?db)
             (path_Join sample_lib [metadata_path sample_lib sample_ch, d_Name ?db]) ?tpre))"
    by blast
  have u1: "fst (createTables sample_lib sample_ch unreadable_os) =
     Some (Errorf ''can't read file /var/lib/clickhouse/backup/metadata/default/broken.sql: permission denied'')"
    using u unfolding p by simp
  have u2: "creations sample_lib sample_ch unreadable_os = []"
    using u unfolding n by simp
  from creation_failures_are_skipped [where lib = sample_lib and ch = sample_ch
      and f = "\<lambda>before table. None" and fs = clean_os] a r l e f u1 u2
  show ?thesis by simp
qed

section \<open>Properties of retention and download\<close>

lemma take_drop_sorted:
  assumes "sorted_wrt (\<lambda>a b. \<not> older b a) ys"
  shows "\<forall>d \<in> set (take n ys). \<forall>k \<in> set (drop n ys). o_LastModified d \<le> o_LastModified k"
proof -
  have "sorted_wrt (\<lambda>a b. \<not> older b a) (take n ys @ drop n ys)" using assms by simp
  then have "\<forall>d \<in> set (take n ys). \<forall>k \<in> set (drop n ys). \<not> older k d"
    unfolding sorted_wrt_append by blast
  then show ?thesis by (force simp: older_def not_less)
qed

lemma mset_minus_take:
  "mset ys = mset xs \<Longrightarrow> mset xs - mset (take n ys) = mset (drop n ys)"
proof -
  assume a: "mset ys = mset xs"
  have "mset (take n ys) + mset (drop n ys) = mset ys"
    by (metis append_take_drop_id mset_append)
  then show ?thesis using a by (metis add_diff_cancel_left')
qed

text \<open>
  C8: with a keep count below 1 \<^verbatim>\<open>removeOldBackups\<close> returns \<^verbatim>\<open>nil\<close> and asks the
  store for nothing. With a keep count \<open>N\<close> of at least 1 and a listing of at most
  \<open>N\<close> objects it deletes nothing and returns \<^verbatim>\<open>nil\<close>. With a listing of more
  than \<open>N\<close> objects it sends one batch to \<^verbatim>\<open>DeleteObjects\<close> and returns its result;
  the batch holds \<open>length listing - N\<close> objects of the listing, \<open>N\<close> objects remain,
  and no deleted object is newer than an object that remains.
\<close>

theorem prune_keeps_newest:
  "(cfg_BackupsToKeep config < 1 \<longrightarrow> removeOldBackups sort_Slice config s3 = (None, [])) \<and>
   (1 \<le> cfg_BackupsToKeep config \<and> s3_ListObjects s3 (cfg_S3_Path config) = Inr objects \<and>
    int (length objects) \<le> cfg_BackupsToKeep config \<longrightarrow>
      removeOldBackups sort_Slice config s3 = (None, [])) \<and>
   (1 \<le> cfg_BackupsToKeep config \<and> s3_ListObjects s3 (cfg_S3_Path config) = Inr objects \<and>
    cfg_BackupsToKeep config < int (length objects) \<and>
    sorts_by older objects (sort_Slice older objects) \<longrightarrow>
      (\<exists>batch. snd (removeOldBackups sort_Slice config s3) = [DeleteObjects batch] \<and>
               fst (removeOldBackups sort_Slice config s3) = s3_DeleteObjects s3 batch) \<and>
      int (length (deleted_objects (snd (removeOldBackups sort_Slice config s3)))) =
        int (length objects) - cfg_BackupsToKeep config \<and>
      mset (deleted_objects (snd (removeOldBackups sort_Slice config s3))) \<subseteq># mset objects \<and>
      int (size (mset objects - mset (deleted_objects (snd (removeOldBackups sort_Slice config s3))))) =
        cfg_BackupsToKeep config \<and>
      (\<forall>d \<in> set (deleted_objects (snd (removeOldBackups sort_Slice config s3))).
         \<forall>k \<in># mset objects - mset (deleted_objects (snd (removeOldBackups sort_Slice config s3))).
           o_LastModified d \<le> o_LastModified k))"
proof (intro conjI impI)
  show "removeOldBackups sort_Slice config s3 = (None, [])" if "cfg_BackupsToKeep config < 1"
    using that by (simp add: removeOldBackups_def)
next
  assume "1 \<le> cfg_BackupsToKeep config \<and> s3_ListObjects s3 (cfg_S3_Path config) = Inr objects \<and>
    int (length objects) \<le> cfg_BackupsToKeep config"
  then show "removeOldBackups sort_Slice config s3 = (None, [])"
    by (simp add: removeOldBackups_def)
next
  assume a: "1 \<le> cfg_BackupsToKeep config \<and> s3_ListObjects s3 (cfg_S3_Path config) = Inr objects \<and>
    cfg_BackupsToKeep config < int (length objects) \<and>
    sorts_by older objects (sort_Slice older objects)"
  let ?n = "nat (int (length objects) - cfg_BackupsToKeep config)"
  let ?ys = "sort_Slice older objects"
  let ?batch = "take ?n ?ys"
  from a have ms: "mset ?ys = mset objects" and so: "sorted_wrt (\<lambda>a b. \<not> older b a) ?ys"
    by (simp_all add: sorts_by_def)
  have len: "length ?ys = length objects" using ms by (metis size_mset)
  from a have k1: "1 \<le> cfg_BackupsToKeep config"
    and k2: "cfg_BackupsToKeep config < int (length objects)" by simp_all
  have n1: "?n \<le> length objects" using k1 by linarith
  have n2: "int ?n = int (length objects) - cfg_BackupsToKeep config" using k2 by simp
  have run: "removeOldBackups sort_Slice config s3 =
      (s3_DeleteObjects s3 ?batch, [DeleteObjects ?batch])"
    using a by (simp add: removeOldBackups_def Let_def split: option.splits)
  have del: "deleted_objects (snd (removeOldBackups sort_Slice config s3)) = ?batch"
    by (simp add: run)
  show "\<exists>batch. snd (removeOldBackups sort_Slice config s3) = [DeleteObjects batch] \<and>
               fst (removeOldBackups sort_Slice config s3) = s3_DeleteObjects s3 batch"
    by (simp add: run)
  show "int (length (deleted_objects (snd (removeOldBackups sort_Slice config s3)))) =
        int (length objects) - cfg_BackupsToKeep config"
    unfolding del using n1 n2 len by simp
  have sub: "mset ?batch \<subseteq># mset ?ys"
    by (metis append_take_drop_id mset_append mset_subset_eq_add_left)
  show "mset (deleted_objects (snd (removeOldBackups sort_Slice config s3))) \<subseteq># mset objects"
    unfolding del using sub ms by simp
  have rest: "mset objects - mset ?batch = mset (drop ?n ?ys)"
    using ms by (rule mset_minus_take)
  show "int (size (mset objects - mset (deleted_objects (snd (removeOldBackups sort_Slice config s3))))) =
        cfg_BackupsToKeep config"
    unfolding del rest using n1 n2 len by simp
  show "\<forall>d \<in> set (deleted_objects (snd (removeOldBackups sort_Slice config s3))).
         \<forall>k \<in># mset objects - mset (deleted_objects (snd (removeOldBackups sort_Slice config s3))).
           o_LastModified d \<le> o_LastModified k"
    unfolding del rest using take_drop_sorted [OF so, of ?n] by simp
qed

lemma sample_sorted: "insertion_sort older sample_objects =
     [\<lparr>o_Key = ''a.tar'', o_LastModified = 10\<rparr>, \<lparr>o_Key = ''b.tar'', o_LastModified = 20\<rparr>,
      \<lparr>o_Key = ''c.tar'', o_LastModified = 30\<rparr>, \<lparr>o_Key = ''d.tar'', o_LastModified = 40\<rparr>]"
  by (simp add: insertion_sort_def sample_objects_def older_def)

lemma sample_sorts: "sorts_by older sample_objects (insertion_sort older sample_objects)"
  unfolding sample_sorted by (simp add: sorts_by_def sample_objects_def older_def)

theorem prune_keeps_newest_witness:
  "removeOldBackups insertion_sort (sample_config\<lparr>cfg_BackupsToKeep := 0\<rparr>) sample_s3 = (None, []) \<and>
   removeOldBackups insertion_sort (sample_config\<lparr>cfg_BackupsToKeep := 4\<rparr>) sample_s3 = (None, []) \<and>
   removeOldBackups insertion_sort sample_config sample_s3 =
     (None, [DeleteObjects [\<lparr>o_Key = ''a.tar'', o_LastModified = 10\<rparr>,
                            \<lparr>o_Key = ''b.tar'', o_LastModified = 20\<rparr>]]) \<and>
   int (length (deleted_objects (snd (removeOldBackups insertion_sort sample_config sample_s3)))) = 2"
proof -
  have k: "1 \<le> cfg_BackupsToKeep sample_config \<and>
      s3_ListObjects sample_s3 (cfg_S3_Path sample_config) = Inr sample_objects \<and>
      cfg_BackupsToKeep sample_config < int (length sample_objects) \<and>
      sorts_by older sample_objects (insertion_sort older sample_objects)"
    using sample_sorts by (simp add: sample_config_def sample_s3_def sample_objects_def)
  have z: "cfg_BackupsToKeep (sample_config\<lparr>cfg_BackupsToKeep := 0\<rparr>) < 1" by simp
  have f: "1 \<le> cfg_BackupsToKeep (sample_config\<lparr>cfg_BackupsToKeep := 4\<rparr>) \<and>
      s3_ListObjects sample_s3 (cfg_S3_Path (sample_config\<lparr>cfg_BackupsToKeep := 4\<rparr>)) = Inr sample_objects \<and>
      int (length sample_objects) \<le> cfg_BackupsToKeep (sample_config\<lparr>cfg_BackupsToKeep := 4\<rparr>)"
    by (simp add: sample_config_def sample_s3_def sample_objects_def)
  have r: "removeOldBackups insertion_sort sample_config sample_s3 =
     (None, [DeleteObjects [\<lparr>o_Key = ''a.tar'', o_LastModified = 10\<rparr>,
                            \<lparr>o_Key = ''b.tar'', o_LastModified = 20\<rparr>]])"
    by (simp add: removeOldBackups_def sample_config_def sample_s3_def sample_sorted)
       (simp add: sample_objects_def)
  from prune_keeps_newest [of "sample_config\<lparr>cfg_BackupsToKeep := 0\<rparr>" insertion_sort sample_s3 sample_objects] z
  have a: "removeOldBackups insertion_sort (sample_config\<lparr>cfg_BackupsToKeep := 0\<rparr>) sample_s3 = (None, [])"
    by blast
  from prune_keeps_newest [of "sample_config\<lparr>cfg_BackupsToKeep := 4\<rparr>" insertion_sort sample_s3 sample_objects] f
  have b: "removeOldBackups insertion_sort (sample_config\<lparr>cfg_BackupsToKeep := 4\<rparr>) sample_s3 = (None, [])"
    by blast
  from prune_keeps_newest [of sample_config insertion_sort sample_s3 sample_objects] k
  have c: "int (length (deleted_objects (snd (removeOldBackups insertion_sort sample_config sample_s3)))) =
        int (length sample_objects) - cfg_BackupsToKeep sample_config" by blast
  from a b r c show ?thesis by (simp add: sample_objects_def sample_config_def)
qed

text \<open>
  C10: under the archive strategy, with no argument or with more than one,
  \<^verbatim>\<open>parseArgsForDownload\<close> gives the empty name and \<^verbatim>\<open>download\<close> returns an error
  without a call to the store or to the local archive; the error is the one for the
  missing archive name whenever the run has a data path and the store connects (an
  earlier failure is returned in its place).
\<close>

theorem download_needs_one_argument:
  assumes "cfg_Strategy config = ''archive''" and "length args \<noteq> 1"
  shows "parseArgsForDownload args = [] \<and>
         snd (download lib config ch s3 la args) = [] \<and>
         fst (download lib config ch s3 la args) \<noteq> None \<and>
         (reaches_strategy config ch s3 \<longrightarrow>
            fst (download lib config ch s3 la args) = Some missing_archive_name)"
  using assms
  by (auto simp: parseArgsForDownload_def download_def reaches_strategy_def Let_def
        split: sum.splits option.splits)

theorem download_needs_one_argument_witness:
  "download sample_lib sample_config sample_ch sample_s3 sample_local [] =
     (Some missing_archive_name, []) \<and>
   download sample_lib sample_config sample_ch sample_s3 sample_local [''a.tar'', ''b.tar''] =
     (Some missing_archive_name, []) \<and>
   download sample_lib sample_config sample_ch sample_s3 sample_local [''a.tar''] =
     (None, [DownloadTree ''metadata'' ''/var/lib/clickhouse/backup/metadata'',
             DownloadArchive ''a.tar'' ''/var/lib/clickhouse/backup'',
             Open ''/var/lib/clickhouse/backup/a.tar'',
             Untar ''/var/lib/clickhouse/backup/a.tar'' ''/var/lib/clickhouse/backup'',
             Remove ''/var/lib/clickhouse/backup/a.tar''])"
proof -
  have s: "cfg_Strategy sample_config = ''archive''" by (simp add: sample_config_def)
  have r: "reaches_strategy sample_config sample_ch sample_s3" by code_simp
  have l0: "length ([] :: string list) \<noteq> 1" by simp
  have l2: "length [''a.tar'', ''b.tar''] \<noteq> 1" by simp
  have one: "download sample_lib sample_config sample_ch sample_s3 sample_local [''a.tar''] =
     (None, [DownloadTree ''metadata'' ''/var/lib/clickhouse/backup/metadata'',
             DownloadArchive ''a.tar'' ''/var/lib/clickhouse/backup'',
             Open ''/var/lib/clickhouse/backup/a.tar'',
             Untar ''/var/lib/clickhouse/backup/a.tar'' ''/var/lib/clickhouse/backup'',
             Remove ''/var/lib/clickhouse/backup/a.tar''])" by code_simp
  from download_needs_one_argument [OF s l0, of sample_lib sample_ch sample_s3 sample_local]
    download_needs_one_argument [OF s l2, of sample_lib sample_ch sample_s3 sample_local] r one
  show ?thesis by (simp add: prod_eq_iff)
qed

end
